theory Spec2Isabelle
  imports Complex_Main "HOL-Library.Char_ord" "HOL-Library.List_Lexorder" "HOL-Library.AList"
begin

section \<open>Strings and path helpers of the standard library\<close>

text \<open>
  A Python \<open>str\<close> is modelled as a \<open>string\<close>, one \<open>char\<close> per character.
  \<open>str.lower\<close> is modelled on the ASCII letters; every other character is left as it is.
  The functions of \<open>os.path\<close> are those of its POSIX flavour, with separator \<open>/\<close>.
\<close>

definition lower_char :: "char \<Rightarrow> char" where
  "lower_char c =
     (case map_of (zip ''ABCDEFGHIJKLMNOPQRSTUVWXYZ'' ''abcdefghijklmnopqrstuvwxyz'') c of
        Some d \<Rightarrow> d
      | None \<Rightarrow> c)"

definition lower :: "string \<Rightarrow> string" where
  "lower s = map lower_char s"

text \<open>\<open>str.rfind\<close> for a single character: the last index holding it, or \<open>-1\<close>.\<close>

fun rfind_from :: "char \<Rightarrow> string \<Rightarrow> int \<Rightarrow> int \<Rightarrow> int" where
  "rfind_from c [] i acc = acc"
| "rfind_from c (x # xs) i acc = rfind_from c xs (i + 1) (if x = c then i else acc)"

definition rfind :: "char \<Rightarrow> string \<Rightarrow> int" where
  "rfind c s = rfind_from c s 0 (-1)"

text \<open>
  \<open>os.path.splitext\<close> (\<open>genericpath._splitext\<close> with separator \<open>/\<close>): the extension
  starts at the last dot of the last path component, unless only dots precede it there.
  The \<open>while\<close> loop that skips the leading dots is \<open>skip_dots\<close>.
\<close>

function skip_dots :: "string \<Rightarrow> int \<Rightarrow> int \<Rightarrow> bool" where
  "skip_dots p filenameIndex dotIndex =
     (if filenameIndex < dotIndex
      then (if p ! nat filenameIndex \<noteq> CHR ''.'' then True
            else skip_dots p (filenameIndex + 1) dotIndex)
      else False)"
  by pat_completeness auto
termination
  by (relation "measure (\<lambda>(p, i, d). nat (d - i))") auto

definition splitext :: "string \<Rightarrow> string \<times> string" where
  "splitext p =
     (let sepIndex = rfind CHR ''/'' p;
          dotIndex = rfind CHR ''.'' p
      in if dotIndex > sepIndex \<and> skip_dots p (sepIndex + 1) dotIndex
         then (take (nat dotIndex) p, drop (nat dotIndex) p)
         else (p, []))"

text \<open>\<open>os.path.basename\<close>: what follows the last separator.\<close>

definition basename :: "string \<Rightarrow> string" where
  "basename p = drop (nat (rfind CHR ''/'' p + 1)) p"

text \<open>\<open>str.replace\<close> for a single character, and its removal.\<close>

definition replace_char :: "char \<Rightarrow> char \<Rightarrow> string \<Rightarrow> string" where
  "replace_char a b s = map (\<lambda>c. if c = a then b else c) s"

definition remove_char :: "char \<Rightarrow> string \<Rightarrow> string" where
  "remove_char a s = filter (\<lambda>c. c \<noteq> a) s"

text \<open>Truthiness of an optional string: \<open>None\<close> and the empty string are false.\<close>

fun truthy :: "string option \<Rightarrow> bool" where
  "truthy None = False"
| "truthy (Some s) = (s \<noteq> [])"

section \<open>Title sanitizing\<close>

definition forbidden_chars :: "char list" where
  "forbidden_chars =
     [CHR ''<'', CHR ''>'', CHR '':'', CHR 0x22, CHR ''/'', CHR 0x5C, CHR ''|'', CHR ''?'',
      CHR ''*'', CHR 0x27, CHR 0x60]"

definition sanitize_lb_title :: "string option \<Rightarrow> string" where
  "sanitize_lb_title title =
     (if \<not> truthy title then []
      else map (\<lambda>c. if c \<in> set forbidden_chars then CHR ''_'' else c) (the title))"

section \<open>XML elements\<close>

text \<open>
  An \<open>xml.etree.ElementTree.Element\<close>: tag, text (\<open>None\<close> for an element without
  character data) and children in document order.
\<close>

datatype element = Element (tag: string) (etext: "string option") (children: "element list")

definition find_child :: "element \<Rightarrow> string \<Rightarrow> element option" where
  "find_child e t = find (\<lambda>c. tag c = t) (children e)"

definition findall :: "element \<Rightarrow> string \<Rightarrow> element list" where
  "findall e t = filter (\<lambda>c. tag c = t) (children e)"

text \<open>\<open>ET.SubElement(parent, tag).text = v\<close>: a new last child.\<close>

definition SubElement :: "element \<Rightarrow> string \<Rightarrow> string option \<Rightarrow> element" where
  "SubElement parent t v = Element (tag parent) (etext parent) (children parent @ [Element t v []])"

section \<open>The metadata lookup\<close>

text \<open>The loop of \<open>process_directory\<close> that fills \<open>rom_map\<close>, one \<open>Game\<close> element at a time.\<close>

fun build_rom_map :: "element list \<Rightarrow> (string \<rightharpoonup> element) \<Rightarrow> (string \<rightharpoonup> element)" where
  "build_rom_map [] rom_map = rom_map"
| "build_rom_map (game # games) rom_map =
     (case find_child game ''ApplicationPath'' of
        Some app_path \<Rightarrow>
          (if truthy (etext app_path)
           then build_rom_map games (rom_map(basename (the (etext app_path)) \<mapsto> game))
           else build_rom_map games rom_map)
      | None \<Rightarrow> build_rom_map games rom_map)"

section \<open>Images and the file tree\<close>

text \<open>
  The pixel data of an image, as the history of the operations that produced it: a picture
  as it was first stored (numbered), its transposition for an EXIF orientation, its
  conversion to a colour mode, and the resampling of a box (left, upper, right, lower) of
  it to a size.
\<close>

datatype pixels =
    Original nat
  | Transposed nat pixels
  | Converted string pixels
  | Resampled "rat \<times> rat \<times> rat \<times> rat" "nat \<times> nat" pixels

text \<open>
  What Pillow's \<open>Image\<close> exposes to this program: the pixel dimensions, the colour mode,
  the EXIF orientation tag (\<open>None\<close> when the file carries none) and the pixel data.
\<close>

record image =
  width :: nat
  height :: nat
  mode :: string
  orientation :: "nat option"
  pixels :: pixels

text \<open>How a file was encoded by \<open>Image.save\<close>: format name, quality and the optimize flag.\<close>

record encoding =
  format :: string
  quality :: "nat option"
  optimize :: bool

datatype content =
    ImageFile image encoding
  | XmlFile element
  | Opaque

text \<open>
  A directory is the list of its entries in listing order. A path is the list of its
  components below the working directory, so \<open>os.path.join(root, name)\<close> is \<open>root @ [name]\<close>.
\<close>

datatype fsnode = File content | Dir "(string \<times> fsnode) list"

type_synonym path = "string list"

fun resolve :: "fsnode \<Rightarrow> path \<Rightarrow> fsnode option" where
  "resolve n [] = Some n"
| "resolve (File c) (x # p) = None"
| "resolve (Dir es) (x # p) = (case map_of es x of None \<Rightarrow> None | Some n \<Rightarrow> resolve n p)"

text \<open>
  \<open>os.walk(top)\<close>, top-down: the directory itself with its non-directory entries, then each
  subdirectory in listing order. A \<open>top\<close> that is not a directory yields nothing (the error
  of \<open>scandir\<close> is swallowed).
\<close>

fun os_walk :: "path \<Rightarrow> fsnode \<Rightarrow> (path \<times> string list) list"
  and os_walk_dirs :: "path \<Rightarrow> (string \<times> fsnode) list \<Rightarrow> (path \<times> string list) list" where
  "os_walk topdir (File c) = []"
| "os_walk topdir (Dir es) =
     (topdir, map fst (filter (\<lambda>(n, x). case x of File c \<Rightarrow> True | Dir s \<Rightarrow> False) es))
       # os_walk_dirs topdir es"
| "os_walk_dirs topdir [] = []"
| "os_walk_dirs topdir ((n, x) # es) =
     (case x of Dir s \<Rightarrow> os_walk (topdir @ [n]) x | File c \<Rightarrow> []) @ os_walk_dirs topdir es"

text \<open>The file names a walk lists, whatever the directory.\<close>

definition walk_names :: "(path \<times> string list) list \<Rightarrow> string set" where
  "walk_names ws = (\<Union>(r, fs) \<in> set ws. set fs)"

section \<open>The artwork locator\<close>

definition candidates :: "string \<Rightarrow> string \<Rightarrow> string list" where
  "candidates title_sanitized rom_filename_no_ext =
     [title_sanitized @ ''-01'', title_sanitized,
      rom_filename_no_ext @ ''-01'', replace_char CHR ''_'' CHR '' '' title_sanitized]"

definition valid_exts :: "string list" where
  "valid_exts = [''.jpg'', ''.png'', ''.jpeg'', ''.gif'']"

text \<open>The test of the inner loop of \<open>find_image\<close> on one file name.\<close>

definition image_match :: "string list \<Rightarrow> string \<Rightarrow> bool" where
  "image_match cands file =
     (case splitext file of (name, ext) \<Rightarrow> lower ext \<in> set valid_exts \<and> name \<in> set cands)"

text \<open>The two nested loops over the walk: the first matching file wins.\<close>

fun first_match :: "string list \<Rightarrow> (path \<times> string list) list \<Rightarrow> path option" where
  "first_match cands [] = None"
| "first_match cands ((walk_root, files) # rest) =
     (case find (image_match cands) files of
        Some file \<Rightarrow> Some (walk_root @ [file])
      | None \<Rightarrow> first_match cands rest)"

definition find_image :: "fsnode \<Rightarrow> path \<Rightarrow> string \<Rightarrow> string \<Rightarrow> string \<Rightarrow> path option" where
  "find_image fs base_dir type_folder title_sanitized rom_filename_no_ext =
     (let search_root = base_dir @ [type_folder]
      in case resolve fs search_root of
           None \<Rightarrow> None
         | Some node \<Rightarrow>
             first_match (candidates title_sanitized rom_filename_no_ext)
               (os_walk search_root node))"

text \<open>
  A file name occurs in the recursive subtree of a node: as a non-directory entry of the
  node itself or of a directory below it.
\<close>

inductive file_in_tree :: "fsnode \<Rightarrow> string \<Rightarrow> bool" where
  here: "(n, File c) \<in> set es \<Longrightarrow> file_in_tree (Dir es) n"
| below: "(d, Dir s) \<in> set es \<Longrightarrow> file_in_tree (Dir s) n \<Longrightarrow> file_in_tree (Dir es) n"

text \<open>
  A relative path leads to a file below a node: through entries that are directories to an
  entry that is not.
\<close>

inductive file_at :: "fsnode \<Rightarrow> path \<Rightarrow> bool" where
  leaf: "(n, File c) \<in> set es \<Longrightarrow> file_at (Dir es) [n]"
| step: "(d, Dir s) \<in> set es \<Longrightarrow> file_at (Dir s) q \<Longrightarrow> file_at (Dir es) (d # q)"

section \<open>Errors, log lines and the state of a run\<close>

datatype py_error =
    FileNotFoundError
  | FileExistsError
  | NotADirectoryError
  | IsADirectoryError
  | UnidentifiedImageError
  | ZeroDivisionError
  | ValueError
  | OSError
  | ParseError

text \<open>One constructor for each \<open>print\<close> of the program.\<close>

datatype event =
    Banner
  | Processing string string
  | XmlError py_error
  | GameLine string
  | ErrorCover path py_error
  | ErrorFanart path py_error
  | ErrorMarquee path py_error
  | Generated string nat
  | NoFolders
  | Done

text \<open>
  The state the program acts on: the file tree below the working directory and what has
  been printed. Three fields stand for what the tree does not decide:
  \<^item> \<open>save_ok\<close>: whether \<open>Image.save\<close> succeeds (whether the encoder accepts the image,
    permissions, free space);
  \<^item> \<open>floor_on_tie\<close>: for an image size and a requested size, which of the two candidates
    \<open>Image.thumbnail\<close> keeps when their keys are equal as exact numbers; Pillow compares
    the keys as floating-point numbers, whose rounding then decides;
  \<^item> \<open>glob_magic\<close>: what \<open>glob\<close> yields, as directory and file name, for \<open>*.xml\<close> below a
    directory path that holds one of the characters \<open>*\<close>, \<open>?\<close>, \<open>[\<close>; \<open>glob\<close> reads such
    a path as a pattern, not as the name of the folder.
\<close>

record world =
  tree :: fsnode
  printed :: "event list"
  save_ok :: "path \<Rightarrow> image \<Rightarrow> encoding \<Rightarrow> bool"
  floor_on_tie :: "nat \<times> nat \<Rightarrow> nat \<times> nat \<Rightarrow> bool"
  glob_magic :: "path \<Rightarrow> (path \<times> string) list"

definition print_event :: "event \<Rightarrow> world \<Rightarrow> world" where
  "print_event e w = w\<lparr>printed := printed w @ [e]\<rparr>"

text \<open>
  \<open>os.makedirs(path, exist_ok=True)\<close>: raises \<open>FileExistsError\<close> when the path itself
  exists as a file and \<open>NotADirectoryError\<close> when one of the directories above it does.
\<close>

fun makedirs :: "path \<Rightarrow> fsnode \<Rightarrow> py_error + fsnode" where
  "makedirs [] (File c) = Inl FileExistsError"
| "makedirs (d # p) (File c) = Inl NotADirectoryError"
| "makedirs [] (Dir es) = Inr (Dir es)"
| "makedirs (d # p) (Dir es) =
     (case makedirs p (case map_of es d of None \<Rightarrow> Dir [] | Some sub \<Rightarrow> sub) of
        Inl e \<Rightarrow> Inl e
      | Inr n \<Rightarrow> Inr (Dir (AList.update d n es)))"

text \<open>
  Writing a file at a path whose parent directory exists: creates or overwrites the entry;
  fails when the parent is missing or the path names a directory.
\<close>

fun write_file :: "path \<Rightarrow> content \<Rightarrow> fsnode \<Rightarrow> py_error + fsnode" where
  "write_file [] c n = Inl IsADirectoryError"
| "write_file (f # p) c (File c') = Inl NotADirectoryError"
| "write_file [f] c (Dir es) =
     (case map_of es f of
        Some (Dir s) \<Rightarrow> Inl IsADirectoryError
      | _ \<Rightarrow> Inr (Dir (AList.update f (File c) es)))"
| "write_file (d # p) c (Dir es) =
     (case map_of es d of
        None \<Rightarrow> Inl FileNotFoundError
      | Some sub \<Rightarrow>
          (case write_file p c sub of
             Inl e \<Rightarrow> Inl e
           | Inr n \<Rightarrow> Inr (Dir (AList.update d n es))))"

section \<open>The Pillow operations the program calls\<close>

text \<open>
  These follow Pillow's own definitions (\<open>Image.thumbnail\<close>, \<open>ImageOps.fit\<close>,
  \<open>ImageOps.exif_transpose\<close>, \<open>Image.resize\<close>) at the level of image dimensions and of the
  operations applied to the pixel data. Where Pillow computes with binary floating point,
  the model computes with exact rationals.
\<close>

definition Image_open :: "fsnode \<Rightarrow> path \<Rightarrow> py_error + image" where
  "Image_open fs source_path =
     (case resolve fs source_path of
        None \<Rightarrow> Inl FileNotFoundError
      | Some (Dir es) \<Rightarrow> Inl IsADirectoryError
      | Some (File (ImageFile img enc)) \<Rightarrow> Inr img
      | Some (File other) \<Rightarrow> Inl UnidentifiedImageError)"

text \<open>
  \<open>ImageOps.exif_transpose\<close>: orientations 2 to 8 are undone and the tag is dropped;
  5 to 8 (transpose, rotate by 90 or 270 degrees, transverse) exchange width and height.
\<close>

definition exif_transpose :: "image \<Rightarrow> image" where
  "exif_transpose img =
     (case orientation img of
        None \<Rightarrow> img
      | Some k \<Rightarrow>
          if k \<in> {5, 6, 7, 8}
          then img\<lparr>width := height img, height := width img, orientation := None,
                   pixels := Transposed k (pixels img)\<rparr>
          else if k \<in> {2, 3, 4}
          then img\<lparr>orientation := None, pixels := Transposed k (pixels img)\<rparr>
          else img)"

definition convert :: "image \<Rightarrow> string \<Rightarrow> image" where
  "convert img m = img\<lparr>mode := m, pixels := Converted m (pixels img)\<rparr>"

text \<open>
  \<open>Image.resize(size, box=box)\<close>: a copy when the size is the image's own and the box is the
  whole image; else the checks of the resampling core on the size and the box (left, upper,
  right, lower), then the box resampled to the requested size.
\<close>

definition resize :: "image \<Rightarrow> nat \<times> nat \<Rightarrow> rat \<times> rat \<times> rat \<times> rat \<Rightarrow> py_error + image" where
  "resize img sz box =
     (case box of (x0, y0, x1, y1) \<Rightarrow>
        if (width img, height img) = sz
           \<and> box = (0, 0, of_nat (width img), of_nat (height img))
        then Inr img
        else if fst sz < 1 \<or> snd sz < 1 then Inl ValueError
        else if x0 < 0 \<or> y0 < 0 then Inl ValueError
        else if x1 > of_nat (width img) \<or> y1 > of_nat (height img) then Inl ValueError
        else if x1 - x0 < 0 \<or> y1 - y0 < 0 then Inl ValueError
        else Inr (img\<lparr>width := fst sz, height := snd sz,
                       pixels := Resampled box sz (pixels img)\<rparr>))"

text \<open>
  \<open>round_aspect\<close> of \<open>Image.thumbnail\<close>:
  \<open>max(min(math.floor(number), math.ceil(number), key=key), 1)\<close>. The candidate with the
  smaller key is kept. When the two keys are equal as exact numbers, the floating-point keys
  that Pillow compares differ by their rounding only, and \<open>tie\<close> says whether the floor is
  kept.
\<close>

definition round_aspect :: "bool \<Rightarrow> rat \<Rightarrow> (int \<Rightarrow> rat) \<Rightarrow> nat" where
  "round_aspect tie number key =
     nat (max (if key \<lfloor>number\<rfloor> < key \<lceil>number\<rceil> then \<lfloor>number\<rfloor>
               else if key \<lceil>number\<rceil> < key \<lfloor>number\<rfloor> then \<lceil>number\<rceil>
               else if tie then \<lfloor>number\<rfloor> else \<lceil>number\<rceil>) 1)"

text \<open>
  \<open>preserve_aspect_ratio\<close> of \<open>Image.thumbnail\<close>: \<open>None\<close> when the image already fits the
  requested size.
\<close>

definition preserve_aspect_ratio ::
  "bool \<Rightarrow> image \<Rightarrow> nat \<times> nat \<Rightarrow> py_error + (nat \<times> nat) option" where
  "preserve_aspect_ratio tie img sz =
     (case sz of (x, y) \<Rightarrow>
        if x \<ge> width img \<and> y \<ge> height img then Inr None
        else if height img = 0 then Inl ZeroDivisionError
        else
          let aspect = (of_nat (width img) / of_nat (height img) :: rat)
          in if y = 0 then Inl ZeroDivisionError
             else if of_nat x / of_nat y \<ge> aspect
             then Inr (Some (round_aspect tie (of_nat y * aspect)
                               (\<lambda>n. \<bar>aspect - of_int n / of_nat y\<bar>), y))
             else Inr (Some (x, round_aspect tie (of_nat x / aspect)
                               (\<lambda>n. if n = 0 then 0 else \<bar>aspect - of_nat x / of_int n\<bar>))))"

text \<open>
  \<open>Image.thumbnail(size)\<close>: resizes in place unless the image already fits. The draft mode
  of the JPEG decoder, which \<open>thumbnail\<close> may switch on, changes how the pixels are read and
  not the size computed here.
\<close>

definition thumbnail :: "bool \<Rightarrow> image \<Rightarrow> nat \<times> nat \<Rightarrow> py_error + image" where
  "thumbnail tie img sz =
     (case preserve_aspect_ratio tie img sz of
        Inl e \<Rightarrow> Inl e
      | Inr None \<Rightarrow> Inr img
      | Inr (Some new_size) \<Rightarrow>
          if (width img, height img) \<noteq> new_size
          then resize img new_size (0, 0, of_nat (width img), of_nat (height img))
          else Inr img)"

text \<open>
  The crop box of \<open>ImageOps.fit\<close> with \<open>bleed = 0\<close>: the largest box of the output's aspect
  ratio inside the image, placed by \<open>centering\<close> (a coordinate outside 0 to 1 is replaced
  by one half). The division by \<open>output_ratio\<close> is reached only below a ratio that is not
  negative, so it never divides by zero.
\<close>

definition fit_crop :: "image \<Rightarrow> nat \<times> nat \<Rightarrow> rat \<times> rat \<Rightarrow> py_error + (rat \<times> rat \<times> rat \<times> rat)" where
  "fit_crop img sz centering =
     (let centering_x = (if 0 \<le> fst centering \<and> fst centering \<le> 1 then fst centering else 1 / 2);
          centering_y = (if 0 \<le> snd centering \<and> snd centering \<le> 1 then snd centering else 1 / 2);
          live_w = (of_nat (width img) :: rat);
          live_h = (of_nat (height img) :: rat)
      in if live_h = 0 \<or> snd sz = 0 then Inl ZeroDivisionError
         else
           let live_size_ratio = live_w / live_h;
               output_ratio = (of_nat (fst sz) / of_nat (snd sz) :: rat);
               (crop_width, crop_height) =
                 (if live_size_ratio = output_ratio then (live_w, live_h)
                  else if live_size_ratio \<ge> output_ratio then (output_ratio * live_h, live_h)
                  else (live_w, live_w / output_ratio));
               crop_left = (live_w - crop_width) * centering_x;
               crop_top = (live_h - crop_height) * centering_y
           in Inr (crop_left, crop_top, crop_left + crop_width, crop_top + crop_height))"

definition ImageOps_fit :: "image \<Rightarrow> nat \<times> nat \<Rightarrow> rat \<times> rat \<Rightarrow> py_error + image" where
  "ImageOps_fit img sz centering =
     (case fit_crop img sz centering of
        Inl e \<Rightarrow> Inl e
      | Inr crop \<Rightarrow> resize img sz crop)"

text \<open>
  \<open>Image.save\<close> to a path whose directory was just made: fails when the environment
  refuses it, else writes the file. No EXIF data is passed to \<open>save\<close>, so the file written
  carries no orientation tag.
\<close>

definition Image_save :: "image \<Rightarrow> path \<Rightarrow> encoding \<Rightarrow> world \<Rightarrow> py_error + world" where
  "Image_save img dest_path enc w =
     (if \<not> save_ok w dest_path img enc then Inl OSError
      else case write_file dest_path (ImageFile (img\<lparr>orientation := None\<rparr>) enc) (tree w) of
             Inl e \<Rightarrow> Inl e
           | Inr t \<Rightarrow> Inr (w\<lparr>tree := t\<rparr>))"

section \<open>The image normalizer\<close>

definition TARGET_RES_FANART :: "nat \<times> nat" where
  "TARGET_RES_FANART = (1280, 720)"

definition TARGET_RES_COVER :: "nat \<times> nat" where
  "TARGET_RES_COVER = (512, 512)"

definition TARGET_RES_LOGO :: "nat \<times> nat" where
  "TARGET_RES_LOGO = (512, 256)"

definition IMG_QUALITY :: nat where
  "IMG_QUALITY = 80"

definition jpeg_encoding :: encoding where
  "jpeg_encoding = \<lparr>format = ''JPEG'', quality = Some IMG_QUALITY, optimize = True\<rparr>"

definition png_encoding :: encoding where
  "png_encoding = \<lparr>format = ''PNG'', quality = None, optimize = True\<rparr>"

text \<open>
  Each operation is its \<open>try\<close> block, statement by statement; every exception ends in the
  \<open>except\<close> branch, which prints and returns \<open>False\<close>. \<open>os.path.dirname\<close> of the
  destination is \<open>butlast\<close>.
\<close>

definition process_image_cover :: "path \<Rightarrow> path \<Rightarrow> world \<Rightarrow> bool \<times> world" where
  "process_image_cover source_path dest_path w =
     (case Image_open (tree w) source_path of
        Inl e \<Rightarrow> (False, print_event (ErrorCover source_path e) w)
      | Inr img0 \<Rightarrow>
          (let img1 = exif_transpose img0;
               img2 = (if mode img1 \<noteq> ''RGB'' then convert img1 ''RGB'' else img1)
           in case thumbnail (floor_on_tie w (width img2, height img2) TARGET_RES_COVER) img2
                     TARGET_RES_COVER of
                Inl e \<Rightarrow> (False, print_event (ErrorCover source_path e) w)
              | Inr img3 \<Rightarrow>
                  (case makedirs (butlast dest_path) (tree w) of
                     Inl e \<Rightarrow> (False, print_event (ErrorCover source_path e) w)
                   | Inr t \<Rightarrow>
                       (case Image_save img3 dest_path jpeg_encoding (w\<lparr>tree := t\<rparr>) of
                          Inl e \<Rightarrow> (False, print_event (ErrorCover source_path e) (w\<lparr>tree := t\<rparr>))
                        | Inr w' \<Rightarrow> (True, w')))))"

definition process_image_fanart :: "path \<Rightarrow> path \<Rightarrow> world \<Rightarrow> bool \<times> world" where
  "process_image_fanart source_path dest_path w =
     (case Image_open (tree w) source_path of
        Inl e \<Rightarrow> (False, print_event (ErrorFanart source_path e) w)
      | Inr img0 \<Rightarrow>
          (let img1 = exif_transpose img0;
               img2 = (if mode img1 \<noteq> ''RGB'' then convert img1 ''RGB'' else img1)
           in case ImageOps_fit img2 TARGET_RES_FANART (1 / 2, 1 / 2) of
                Inl e \<Rightarrow> (False, print_event (ErrorFanart source_path e) w)
              | Inr img3 \<Rightarrow>
                  (case makedirs (butlast dest_path) (tree w) of
                     Inl e \<Rightarrow> (False, print_event (ErrorFanart source_path e) w)
                   | Inr t \<Rightarrow>
                       (case Image_save img3 dest_path jpeg_encoding (w\<lparr>tree := t\<rparr>) of
                          Inl e \<Rightarrow> (False, print_event (ErrorFanart source_path e) (w\<lparr>tree := t\<rparr>))
                        | Inr w' \<Rightarrow> (True, w')))))"

definition process_image_marquee :: "path \<Rightarrow> path \<Rightarrow> world \<Rightarrow> bool \<times> world" where
  "process_image_marquee source_path dest_path w =
     (case Image_open (tree w) source_path of
        Inl e \<Rightarrow> (False, print_event (ErrorMarquee source_path e) w)
      | Inr img0 \<Rightarrow>
          (case thumbnail (floor_on_tie w (width img0, height img0) TARGET_RES_LOGO) img0
                  TARGET_RES_LOGO of
             Inl e \<Rightarrow> (False, print_event (ErrorMarquee source_path e) w)
           | Inr img1 \<Rightarrow>
               (case makedirs (butlast dest_path) (tree w) of
                  Inl e \<Rightarrow> (False, print_event (ErrorMarquee source_path e) w)
                | Inr t \<Rightarrow>
                    (case Image_save img1 dest_path png_encoding (w\<lparr>tree := t\<rparr>) of
                       Inl e \<Rightarrow> (False, print_event (ErrorMarquee source_path e) (w\<lparr>tree := t\<rparr>))
                     | Inr w' \<Rightarrow> (True, w')))))"

section \<open>Finding the metadata file\<close>

definition startswith :: "string \<Rightarrow> string \<Rightarrow> bool" where
  "startswith s pre = (take (length pre) s = pre)"

definition endswith :: "string \<Rightarrow> string \<Rightarrow> bool" where
  "endswith s suf = (length suf \<le> length s \<and> drop (length s - length suf) s = suf)"

text \<open>\<open>glob.has_magic\<close>: the name holds one of the characters \<open>*\<close>, \<open>?\<close>, \<open>[\<close>.\<close>

definition has_magic :: "string \<Rightarrow> bool" where
  "has_magic s = (\<exists>c \<in> set s. c \<in> {CHR ''*'', CHR ''?'', CHR ''[''})"

text \<open>
  \<open>glob(os.path.join(directory, "*.xml"))\<close>. The directory path goes into the pattern as it
  is. When none of its components holds a magic character, the result is the entries of
  that directory, in listing order, whose name ends in \<open>.xml\<close> and does not start with a
  dot, and nothing when the directory is missing. When one does, \<open>glob\<close> matches the path
  as a pattern against the directories that exist, and the result is what \<open>glob_magic\<close>
  gives. The path of the working directory itself is taken to be free of magic characters.
\<close>

definition glob_xml :: "world \<Rightarrow> path \<Rightarrow> path list" where
  "glob_xml w directory =
     (if \<exists>c \<in> set directory. has_magic c
      then map (\<lambda>(found_dir, n). found_dir @ [n]) (glob_magic w directory)
      else case resolve (tree w) directory of
             Some (Dir es) \<Rightarrow>
               map (\<lambda>n. directory @ [n])
                 (filter (\<lambda>n. endswith n ''.xml'' \<and> \<not> startswith n ''.'') (map fst es))
           | _ \<Rightarrow> [])"

text \<open>
  The suffix test is on the last component: the suffix has no separator, so it ends the
  joined path exactly when it ends the file name.
\<close>

definition get_launchbox_xml :: "world \<Rightarrow> path \<Rightarrow> path option" where
  "get_launchbox_xml w directory =
     find (\<lambda>f. \<not> endswith (lower (last f)) ''gamelist.xml'') (glob_xml w directory)"

definition ET_parse :: "fsnode \<Rightarrow> path \<Rightarrow> py_error + element" where
  "ET_parse fs source =
     (case resolve fs source of
        None \<Rightarrow> Inl FileNotFoundError
      | Some (Dir es) \<Rightarrow> Inl IsADirectoryError
      | Some (File (XmlFile e)) \<Rightarrow> Inr e
      | Some (File other) \<Rightarrow> Inl ParseError)"

section \<open>One game\<close>

definition game_exts :: "string list" where
  "game_exts = [''.chd'', ''.n64'', ''.z64'', ''.v64'', ''.gdi'', ''.cdi'', ''.iso'', ''.cue'',
                ''.bin'', ''.img'', ''.mdf'', ''.pbp'']"

text \<open>The loop over \<open>Developer\<close>, \<open>Publisher\<close>, \<open>Genre\<close> and \<open>MaxPlayers\<close>.\<close>

fun copy_tags :: "element \<Rightarrow> string list \<Rightarrow> element \<Rightarrow> element" where
  "copy_tags game_node [] game_elem = game_elem"
| "copy_tags game_node (tg # tags) game_elem =
     copy_tags game_node tags
       (case find_child game_node tg of
          None \<Rightarrow> game_elem
        | Some node \<Rightarrow>
            if truthy (etext node) then SubElement game_elem (lower tg) (etext node)
            else game_elem)"

text \<open>
  The metadata block of a matched game (\<open>name\<close>, \<open>desc\<close>, the four copied tags,
  \<open>releasedate\<close>); returns the resolved title with the element.
\<close>

definition add_metadata :: "element \<Rightarrow> string \<Rightarrow> element \<Rightarrow> string option \<times> element" where
  "add_metadata game_node name game_elem0 =
     (let title_text = (case find_child game_node ''Title'' of
                          None \<Rightarrow> Some name
                        | Some title \<Rightarrow> etext title);
          game_elem1 = SubElement game_elem0 ''name'' title_text;
          game_elem2 = (case find_child game_node ''Notes'' of
                          None \<Rightarrow> game_elem1
                        | Some desc \<Rightarrow> SubElement game_elem1 ''desc'' (etext desc));
          game_elem3 = copy_tags game_node [''Developer'', ''Publisher'', ''Genre'', ''MaxPlayers'']
                         game_elem2;
          game_elem4 = (case find_child game_node ''ReleaseDate'' of
                          None \<Rightarrow> game_elem3
                        | Some rel \<Rightarrow>
                            if truthy (etext rel) \<and> length (the (etext rel)) \<ge> 10
                            then SubElement game_elem3 ''releasedate''
                                   (Some (remove_char CHR ''-'' (take 10 (the (etext rel)))
                                          @ ''T000000''))
                            else game_elem3)
      in (title_text, game_elem4))"

text \<open>The three artwork blocks of a matched game.\<close>

definition cover_step :: "path \<Rightarrow> string \<Rightarrow> string \<Rightarrow> string \<Rightarrow> element \<times> world \<Rightarrow> element \<times> world" where
  "cover_step full_dir_path sanitized name rom_base st =
     (case st of (game_elem, w) \<Rightarrow>
        (case find_image (tree w) full_dir_path ''Front'' sanitized name of
           None \<Rightarrow> (game_elem, w)
         | Some src \<Rightarrow>
             (case process_image_cover src
                     (full_dir_path @ [''images'', ''covers'', rom_base @ ''.jpg'']) w of
                (ok, w') \<Rightarrow>
                  if ok
                  then (SubElement game_elem ''image''
                          (Some (''./images/covers/'' @ rom_base @ ''.jpg'')), w')
                  else (game_elem, w'))))"

definition fanart_step :: "path \<Rightarrow> string \<Rightarrow> string \<Rightarrow> string \<Rightarrow> element \<times> world \<Rightarrow> element \<times> world" where
  "fanart_step full_dir_path sanitized name rom_base st =
     (case st of (game_elem, w) \<Rightarrow>
        (case find_image (tree w) full_dir_path ''Screenshot'' sanitized name of
           None \<Rightarrow> (game_elem, w)
         | Some src \<Rightarrow>
             (case process_image_fanart src
                     (full_dir_path @ [''images'', ''fanart'', rom_base @ ''.jpg'']) w of
                (ok, w') \<Rightarrow>
                  if ok
                  then (SubElement game_elem ''fanart''
                          (Some (''./images/fanart/'' @ rom_base @ ''.jpg'')), w')
                  else (game_elem, w'))))"

definition marquee_step :: "path \<Rightarrow> string \<Rightarrow> string \<Rightarrow> string \<Rightarrow> element \<times> world \<Rightarrow> element \<times> world" where
  "marquee_step full_dir_path sanitized name rom_base st =
     (case st of (game_elem, w) \<Rightarrow>
        (case find_image (tree w) full_dir_path ''Clear Logo'' sanitized name of
           None \<Rightarrow> (game_elem, w)
         | Some src \<Rightarrow>
             (case process_image_marquee src
                     (full_dir_path @ [''images'', ''marquees'', rom_base @ ''.png'']) w of
                (ok, w') \<Rightarrow>
                  if ok
                  then (SubElement game_elem ''marquee''
                          (Some (''./images/marquees/'' @ rom_base @ ''.png'')), w')
                  else (game_elem, w'))))"

text \<open>
  The body of the loop over the ROM files, after the extension test: the \<open>game\<close> element
  of file \<open>f\<close> and the state after its artwork was written.
\<close>

definition process_game :: "path \<Rightarrow> (string \<rightharpoonup> element) \<Rightarrow> string \<Rightarrow> world \<Rightarrow> element \<times> world" where
  "process_game full_dir_path rom_map f w0 =
     (let name = fst (splitext f);
          w = print_event (GameLine name) w0;
          game_elem = SubElement (Element ''game'' None []) ''path'' (Some (''./'' @ f))
      in case rom_map f of
           Some game_node \<Rightarrow>
             (case add_metadata game_node name game_elem of
                (title_text, game_elem') \<Rightarrow>
                  (let sanitized = sanitize_lb_title title_text;
                       rom_base = fst (splitext f)
                   in marquee_step full_dir_path sanitized name rom_base
                        (fanart_step full_dir_path sanitized name rom_base
                          (cover_step full_dir_path sanitized name rom_base (game_elem', w)))))
         | None \<Rightarrow> (SubElement game_elem ''name'' (Some name), w))"

section \<open>One folder, and the scan of all folders\<close>

fun games_loop ::
  "path \<Rightarrow> (string \<rightharpoonup> element) \<Rightarrow> string list \<Rightarrow> element \<times> nat \<times> world \<Rightarrow> element \<times> nat \<times> world" where
  "games_loop full_dir_path rom_map [] st = st"
| "games_loop full_dir_path rom_map (f # files) (new_root, count, w) =
     (if lower (snd (splitext f)) \<notin> set game_exts
      then games_loop full_dir_path rom_map files (new_root, count, w)
      else case process_game full_dir_path rom_map f w of
             (game_elem, w') \<Rightarrow>
               games_loop full_dir_path rom_map files
                 (Element (tag new_root) (etext new_root) (children new_root @ [game_elem]),
                  count + 1, w'))"

text \<open>\<open>os.listdir\<close> filtered by \<open>os.path.isfile\<close>.\<close>

definition listdir_files :: "fsnode \<Rightarrow> path \<Rightarrow> py_error + string list" where
  "listdir_files fs directory =
     (case resolve fs directory of
        None \<Rightarrow> Inl FileNotFoundError
      | Some (File c) \<Rightarrow> Inl NotADirectoryError
      | Some (Dir es) \<Rightarrow>
          Inr (map fst (filter (\<lambda>(n, x). case x of File c \<Rightarrow> True | Dir s \<Rightarrow> False) es)))"

text \<open>
  \<open>process_directory\<close>; the folder is a direct child of the working directory. Only the
  final write of \<open>gamelist.xml\<close> and the listing can raise out of the function.
\<close>

definition process_directory :: "string \<Rightarrow> world \<Rightarrow> py_error + world" where
  "process_directory directory_name w0 =
     (let full_dir_path = [directory_name]
      in case get_launchbox_xml w0 full_dir_path of
           None \<Rightarrow> Inr w0
         | Some lb_xml \<Rightarrow>
             (let w1 = print_event (Processing directory_name (last lb_xml)) w0
              in case ET_parse (tree w1) lb_xml of
                   Inl e \<Rightarrow> Inr (print_event (XmlError e) w1)
                 | Inr xml_root \<Rightarrow>
                     (let rom_map = build_rom_map (findall xml_root ''Game'') Map.empty
                      in case listdir_files (tree w1) full_dir_path of
                           Inl e \<Rightarrow> Inl e
                         | Inr files \<Rightarrow>
                             (case games_loop full_dir_path rom_map (sort files)
                                     (Element ''gameList'' None [], 0, w1) of
                                (new_root, count, w2) \<Rightarrow>
                                  (case write_file (full_dir_path @ [''gamelist.xml''])
                                          (XmlFile new_root) (tree w2) of
                                     Inl e \<Rightarrow> Inl e
                                   | Inr t \<Rightarrow>
                                       Inr (print_event (Generated ''gamelist.xml'' count)
                                              (w2\<lparr>tree := t\<rparr>)))))))"

definition excludes :: "string list" where
  "excludes = [''System Volume Information'', ''$RECYCLE.BIN'', ''images'', ''Config'']"

text \<open>The loop of the main block over the subdirectories.\<close>

fun scan_dirs :: "string list \<Rightarrow> nat \<Rightarrow> world \<Rightarrow> py_error + (nat \<times> world)" where
  "scan_dirs [] found w = Inr (found, w)"
| "scan_dirs (d # dirs) found w =
     (if d \<in> set excludes \<or> startswith d ''.'' then scan_dirs dirs found w
      else if get_launchbox_xml w [d] \<noteq> None
      then (case process_directory d w of
              Inl e \<Rightarrow> Inl e
            | Inr w' \<Rightarrow> scan_dirs dirs (found + 1) w')
      else scan_dirs dirs found w)"

section \<open>Example data\<close>

text \<open>A small metadata export, a folder holding it, and a state to run the program on.\<close>

definition example_game :: element where
  "example_game =
     Element ''Game'' None
       [Element ''ApplicationPath'' (Some ''roms/mario.z64'') [],
        Element ''Title'' (Some ''Super Mario 64'') [],
        Element ''Notes'' None [],
        Element ''Developer'' (Some ''Nintendo'') [],
        Element ''Publisher'' None [],
        Element ''ReleaseDate'' (Some ''1996-06-23T00:00:00-07:00'') []]"

definition example_game_reissue :: element where
  "example_game_reissue =
     Element ''Game'' None
       [Element ''ApplicationPath'' (Some ''backup/mario.z64'') [],
        Element ''Title'' (Some ''Mario: 64'') []]"


definition example_xml :: element where
  "example_xml = Element ''LaunchBox'' None [example_game, example_game_reissue]"

definition example_image :: "nat \<Rightarrow> nat \<Rightarrow> nat option \<Rightarrow> nat \<Rightarrow> content" where
  "example_image w h k n =
     ImageFile \<lparr>width = w, height = h, mode = ''RGBA'', orientation = k, pixels = Original n\<rparr>
               \<lparr>format = ''PNG'', quality = None, optimize = False\<rparr>"

definition example_tree :: fsnode where
  "example_tree =
     Dir [(''N64'',
           Dir [(''Metadata.xml'', File (XmlFile example_xml)),
                (''mario.z64'', File Opaque),
                (''zelda.z64'', File Opaque),
                (''Front'', Dir [(''Box'', Dir [(''Mario_ 64-01.JPG'', File (example_image 1000 600 None 4))])]),
                (''Screenshot'', Dir [(''Mario  64.png'', File (example_image 640 480 None 2))]),
                (''Clear Logo'', Dir [(''mario-01.gif'', File Opaque)])]),
          (''Broken'',
           Dir [(''Export.xml'', File Opaque),
                (''game.iso'', File Opaque)])]"

definition example_world :: world where
  "example_world =
     \<lparr>tree = example_tree, printed = [], save_ok = (\<lambda>p img enc. True),
      floor_on_tie = (\<lambda>sz box. False), glob_magic = (\<lambda>p. [])\<rparr>"

text \<open>A photo stored on its side: 100 by 200 pixels, to be shown rotated (orientation 6).\<close>

definition rotated_world :: world where
  "rotated_world =
     \<lparr>tree = Dir [(''Front'', Dir [(''photo.jpg'', File (example_image 100 200 (Some 6) 3))])],
      printed = [], save_ok = (\<lambda>p img enc. True),
      floor_on_tie = (\<lambda>sz box. False), glob_magic = (\<lambda>p. [])\<rparr>"

section \<open>Properties of the artwork locator\<close>

lemma find_SomeD: "find P xs = Some x \<Longrightarrow> P x \<and> x \<in> set xs"
  by (induction xs) (auto split: if_splits)

lemma first_match_None_iff:
  "first_match cands ws = None \<longleftrightarrow> (\<forall>(r, fs) \<in> set ws. \<forall>f \<in> set fs. \<not> image_match cands f)"
proof (induction cands ws rule: first_match.induct)
  case (1 cands)
  then show ?case by simp
next
  case (2 cands walk_root files rest)
  show ?case
  proof (cases "find (image_match cands) files")
    case None
    then have nf: "\<forall>x\<in>set files. \<not> image_match cands x" by (simp add: find_None_iff)
    show ?thesis using 2[OF None] nf by (simp add: None)
  next
    case (Some f)
    then show ?thesis using find_SomeD[OF Some] by auto
  qed
qed

lemma first_match_Some:
  "first_match cands ws = Some p \<Longrightarrow>
   \<exists>r fs f. (r, fs) \<in> set ws \<and> f \<in> set fs \<and> image_match cands f \<and> p = r @ [f]"
proof (induction cands ws rule: first_match.induct)
  case (1 cands)
  then show ?case by simp
next
  case (2 cands walk_root files rest)
  show ?case
  proof (cases "find (image_match cands) files")
    case None
    then show ?thesis using 2 by fastforce
  next
    case (Some f)
    then show ?thesis using find_SomeD[OF Some] 2(2) by fastforce
  qed
qed

lemma plain_files:
  "set (map fst (filter (\<lambda>(n, x). case x of File c \<Rightarrow> True | Dir s \<Rightarrow> False) es)) =
   {n. \<exists>c. (n, File c) \<in> set es}"
  by (force split: fsnode.splits)

lemma file_in_tree_File: "\<not> file_in_tree (File c) f"
  by (auto elim: file_in_tree.cases)

lemma file_in_tree_Dir:
  "file_in_tree (Dir es) f \<longleftrightarrow>
   (\<exists>c. (f, File c) \<in> set es) \<or> (\<exists>d s. (d, Dir s) \<in> set es \<and> file_in_tree (Dir s) f)"
  by (subst file_in_tree.simps) auto

lemma walk_names_simps:
  "walk_names [] = {}"
  "walk_names ((r, fs) # ws) = set fs \<union> walk_names ws"
  "walk_names (ws @ vs) = walk_names ws \<union> walk_names vs"
  by (auto simp: walk_names_def)

text \<open>The names a walk lists are the files of the subtree.\<close>

lemma os_walk_names:
  "walk_names (os_walk p n) = {f. file_in_tree n f}"
  "walk_names (os_walk_dirs p es) = {f. \<exists>d s. (d, Dir s) \<in> set es \<and> file_in_tree (Dir s) f}"
proof (induction p n and p es rule: os_walk_os_walk_dirs.induct)
  case (1 topdir c)
  then show ?case by (simp add: walk_names_simps file_in_tree_File)
next
  case (2 topdir es)
  have "{f. file_in_tree (Dir es) f} =
        {n. \<exists>c. (n, File c) \<in> set es} \<union> {f. \<exists>d s. (d, Dir s) \<in> set es \<and> file_in_tree (Dir s) f}"
    by (subst file_in_tree_Dir) blast
  then show ?case using 2 by (simp only: os_walk.simps walk_names_simps plain_files)
next
  case (3 topdir)
  then show ?case by (simp add: walk_names_simps)
next
  case (4 topdir n x es)
  show ?case
  proof (cases x)
    case (File c)
    then show ?thesis using 4 by (auto simp: walk_names_simps)
  next
    case (Dir s)
    then show ?thesis using 4 by (auto simp: walk_names_simps)
  qed
qed

lemma first_match_None_names:
  "first_match cands ws = None \<longleftrightarrow> (\<forall>f \<in> walk_names ws. \<not> image_match cands f)"
  unfolding first_match_None_iff walk_names_def by fastforce

lemma first_match_walk:
  "first_match cands (os_walk p n) \<noteq> None \<longleftrightarrow> (\<exists>f. file_in_tree n f \<and> image_match cands f)"
  by (simp add: first_match_None_names os_walk_names(1))

lemma image_match_candidates:
  "image_match (candidates t r) f \<longleftrightarrow>
     lower (snd (splitext f)) \<in> {''.jpg'', ''.jpeg'', ''.png'', ''.gif''}
     \<and> fst (splitext f) \<in> {t @ ''-01'', t, r @ ''-01'', replace_char CHR ''_'' CHR '' '' t}"
  by (auto simp: image_match_def candidates_def valid_exts_def split: prod.splits)

lemma file_at_nonempty: "file_at n q \<Longrightarrow> q \<noteq> []"
  by (induction rule: file_at.induct) auto

text \<open>Every file a walk lists is a file of the subtree, at the place the walk says.\<close>

lemma os_walk_file_at:
  "(r, fs) \<in> set (os_walk p n) \<Longrightarrow> f \<in> set fs \<Longrightarrow>
     \<exists>q. r @ [f] = p @ q \<and> file_at n q \<and> last q = f"
  "(r, fs) \<in> set (os_walk_dirs p es) \<Longrightarrow> f \<in> set fs \<Longrightarrow>
     \<exists>d s q. (d, Dir s) \<in> set es \<and> r @ [f] = p @ d # q \<and> file_at (Dir s) q \<and> last q = f"
proof (induction p n and p es arbitrary: r fs f and r fs f rule: os_walk_os_walk_dirs.induct)
  case (1 topdir c)
  then show ?case by simp
next
  case (2 topdir es)
  from 2(2) consider
    (top) "r = topdir" "fs = map fst (filter (\<lambda>(n, x). case x of File c \<Rightarrow> True | Dir s \<Rightarrow> False) es)"
    | (sub) "(r, fs) \<in> set (os_walk_dirs topdir es)"
    by auto
  then show ?case
  proof cases
    case top
    then have "f \<in> {n. \<exists>c. (n, File c) \<in> set es}"
      using 2(3) plain_files[of es] by simp
    then obtain c where "(f, File c) \<in> set es" by blast
    then have "file_at (Dir es) [f]" by (rule file_at.leaf)
    then show ?thesis using top(1) by (intro exI[of _ "[f]"]) simp
  next
    case sub
    from 2(1)[OF sub 2(3)] obtain d s q where
      "(d, Dir s) \<in> set es" "r @ [f] = topdir @ d # q" "file_at (Dir s) q" "last q = f"
      by blast
    moreover then have "file_at (Dir es) (d # q)" by (auto intro: file_at.step)
    moreover have "q \<noteq> []" using calculation(3) by (rule file_at_nonempty)
    ultimately show ?thesis by (intro exI[of _ "d # q"]) simp
  qed
next
  case (3 topdir)
  then show ?case by simp
next
  case (4 topdir n x es)
  from 4(3) consider
    (here) "(r, fs) \<in> set (case x of Dir s \<Rightarrow> os_walk (topdir @ [n]) x | File c \<Rightarrow> [])"
    | (rest) "(r, fs) \<in> set (os_walk_dirs topdir es)"
    by auto
  then show ?case
  proof cases
    case here
    then obtain s where x: "x = Dir s" and m: "(r, fs) \<in> set (os_walk (topdir @ [n]) x)"
      by (cases x) auto
    from 4(1)[OF x m 4(4)] obtain q where
      "r @ [f] = (topdir @ [n]) @ q" "file_at x q" "last q = f" by blast
    then show ?thesis using x by (intro exI[of _ n] exI[of _ s] exI[of _ q]) simp
  next
    case rest
    from 4(2)[OF rest 4(4)] show ?thesis by auto
  qed
qed

text \<open>
  C1. For every tree, base directory, category folder, sanitized title \<open>t\<close> and ROM base
  name \<open>r\<close>, \<open>find_image\<close> returns a path if and only if the category folder exists as a
  directory and some file of its recursive subtree has an extension among \<open>.jpg\<close>,
  \<open>.jpeg\<close>, \<open>.png\<close>, \<open>.gif\<close> (compared in lower case) and a stem equal to \<open>t-01\<close>, \<open>t\<close>,
  \<open>r-01\<close> or \<open>t\<close> with underscores replaced by spaces. Otherwise it returns \<open>None\<close>; the
  function has no error result. A path it returns is the category folder followed by the
  place \<open>q\<close> of such a file in the subtree: a file is there, and its name has one of the
  extensions and one of the four stems.
\<close>

theorem find_image_iff:
  "(find_image fs base_dir type_folder t r \<noteq> None \<longleftrightarrow>
     (\<exists>es f. resolve fs (base_dir @ [type_folder]) = Some (Dir es) \<and> file_in_tree (Dir es) f
        \<and> lower (snd (splitext f)) \<in> {''.jpg'', ''.jpeg'', ''.png'', ''.gif''}
        \<and> fst (splitext f) \<in> {t @ ''-01'', t, r @ ''-01'', replace_char CHR ''_'' CHR '' '' t}))
   \<and> (\<forall>p. find_image fs base_dir type_folder t r = Some p \<longrightarrow>
         (\<exists>es q. resolve fs (base_dir @ [type_folder]) = Some (Dir es)
            \<and> p = base_dir @ [type_folder] @ q
            \<and> file_at (Dir es) q
            \<and> lower (snd (splitext (last q))) \<in> {''.jpg'', ''.jpeg'', ''.png'', ''.gif''}
            \<and> fst (splitext (last q)) \<in>
                 {t @ ''-01'', t, r @ ''-01'', replace_char CHR ''_'' CHR '' '' t}))"
proof -
  have first: "find_image fs base_dir type_folder t r \<noteq> None \<longleftrightarrow>
     (\<exists>es f. resolve fs (base_dir @ [type_folder]) = Some (Dir es) \<and> file_in_tree (Dir es) f
        \<and> lower (snd (splitext f)) \<in> {''.jpg'', ''.jpeg'', ''.png'', ''.gif''}
        \<and> fst (splitext f) \<in> {t @ ''-01'', t, r @ ''-01'', replace_char CHR ''_'' CHR '' '' t})"
  proof (cases "resolve fs (base_dir @ [type_folder])")
    case None
    then show ?thesis by (simp add: find_image_def)
  next
    case (Some node)
    show ?thesis
    proof (cases node)
      case (File c)
      then show ?thesis using Some by (simp add: find_image_def)
    next
      case (Dir es)
      have eq: "find_image fs base_dir type_folder t r =
                first_match (candidates t r) (os_walk (base_dir @ [type_folder]) (Dir es))"
        using Some Dir by (simp add: find_image_def del: os_walk.simps)
      show ?thesis
        unfolding eq first_match_walk using Some Dir by (simp add: image_match_candidates)
    qed
  qed
  have second: "\<exists>es q. resolve fs (base_dir @ [type_folder]) = Some (Dir es)
            \<and> p = base_dir @ [type_folder] @ q
            \<and> file_at (Dir es) q
            \<and> lower (snd (splitext (last q))) \<in> {''.jpg'', ''.jpeg'', ''.png'', ''.gif''}
            \<and> fst (splitext (last q)) \<in>
                 {t @ ''-01'', t, r @ ''-01'', replace_char CHR ''_'' CHR '' '' t}"
    if p: "find_image fs base_dir type_folder t r = Some p" for p
  proof -
    from p obtain node where
      n: "resolve fs (base_dir @ [type_folder]) = Some node"
      and m: "first_match (candidates t r) (os_walk (base_dir @ [type_folder]) node) = Some p"
      by (auto simp: find_image_def Let_def split: option.splits)
    from first_match_Some[OF m] obtain wr files f where
      w: "(wr, files) \<in> set (os_walk (base_dir @ [type_folder]) node)" "f \<in> set files"
        "image_match (candidates t r) f" "p = wr @ [f]"
      by blast
    from os_walk_file_at(1)[OF w(1,2)] obtain q where
      q: "wr @ [f] = (base_dir @ [type_folder]) @ q" "file_at node q" "last q = f"
      by blast
    obtain es where d: "node = Dir es"
      using q(2) by (cases node) (auto elim: file_at.cases)
    show ?thesis
      using n d w(3,4) q by (intro exI[of _ es] exI[of _ q]) (simp add: image_match_candidates)
  qed
  show ?thesis using first second by blast
qed

text \<open>
  C1 at the example folder: the cover of the second record is found below \<open>Front\<close>, at
  \<open>Box/Mario_ 64-01.JPG\<close>; nothing is found for a title that no file carries.
\<close>

theorem find_image_iff_witness:
  "find_image example_tree [''N64''] ''Front'' ''Mario_ 64'' ''mario'' =
     Some [''N64'', ''Front'', ''Box'', ''Mario_ 64-01.JPG'']
   \<and> (\<exists>es q. resolve example_tree ([''N64''] @ [''Front'']) = Some (Dir es)
        \<and> [''N64'', ''Front'', ''Box'', ''Mario_ 64-01.JPG''] = [''N64''] @ [''Front''] @ q
        \<and> file_at (Dir es) q
        \<and> lower (snd (splitext (last q))) \<in> {''.jpg'', ''.jpeg'', ''.png'', ''.gif''}
        \<and> fst (splitext (last q)) \<in> {''Mario_ 64'' @ ''-01'', ''Mario_ 64'', ''mario'' @ ''-01'',
                                       replace_char CHR ''_'' CHR '' '' ''Mario_ 64''})
   \<and> find_image example_tree [''N64''] ''Front'' ''Zelda'' ''zelda'' = None
   \<and> \<not> (\<exists>es f. resolve example_tree ([''N64''] @ [''Front'']) = Some (Dir es)
        \<and> file_in_tree (Dir es) f
        \<and> lower (snd (splitext f)) \<in> {''.jpg'', ''.jpeg'', ''.png'', ''.gif''}
        \<and> fst (splitext f) \<in> {''Zelda'' @ ''-01'', ''Zelda'', ''zelda'' @ ''-01'',
                                replace_char CHR ''_'' CHR '' '' ''Zelda''})"
proof -
  have h: "find_image example_tree [''N64''] ''Front'' ''Mario_ 64'' ''mario'' =
             Some [''N64'', ''Front'', ''Box'', ''Mario_ 64-01.JPG'']"
    by code_simp
  have z: "find_image example_tree [''N64''] ''Front'' ''Zelda'' ''zelda'' = None"
    by code_simp
  show ?thesis
    using h z
      find_image_iff[of example_tree "[''N64'']" "''Front''" "''Mario_ 64''" "''mario''"]
      find_image_iff[of example_tree "[''N64'']" "''Front''" "''Zelda''" "''zelda''"]
    by (metis option.distinct(1))
qed

section \<open>Properties of the metadata block\<close>

lemma children_SubElement: "children (SubElement e t v) = children e @ [Element t v []]"
  by (simp add: SubElement_def)

lemma findall_SubElement:
  "findall (SubElement e t v) t' = findall e t' @ (if t = t' then [Element t v []] else [])"
  by (simp add: findall_def SubElement_def)

lemma lower_tags:
  "lower ''Developer'' = ''developer''" "lower ''Publisher'' = ''publisher''"
  "lower ''Genre'' = ''genre''" "lower ''MaxPlayers'' = ''maxplayers''"
  by (simp_all add: lower_def lower_char_def)

lemma children_copy_tags:
  "children (copy_tags g tags ge) =
     children ge @ concat (map (\<lambda>tg. case find_child g tg of
                                        None \<Rightarrow> []
                                      | Some n \<Rightarrow> if truthy (etext n)
                                                  then [Element (lower tg) (etext n) []] else []) tags)"
  by (induction tags arbitrary: ge) (auto simp: children_SubElement split: option.splits)

lemma children_add_metadata:
  "children (snd (add_metadata g name ge)) =
     children ge
     @ [Element ''name'' (case find_child g ''Title'' of None \<Rightarrow> Some name | Some t \<Rightarrow> etext t) []]
     @ (case find_child g ''Notes'' of None \<Rightarrow> [] | Some d \<Rightarrow> [Element ''desc'' (etext d) []])
     @ concat (map (\<lambda>tg. case find_child g tg of
                            None \<Rightarrow> []
                          | Some n \<Rightarrow> if truthy (etext n)
                                      then [Element (lower tg) (etext n) []] else [])
                [''Developer'', ''Publisher'', ''Genre'', ''MaxPlayers''])
     @ (case find_child g ''ReleaseDate'' of
          None \<Rightarrow> []
        | Some rel \<Rightarrow>
            if truthy (etext rel) \<and> 10 \<le> length (the (etext rel))
            then [Element ''releasedate''
                    (Some (remove_char CHR ''-'' (take 10 (the (etext rel))) @ ''T000000'')) []]
            else [])"
proof -
  let ?tt = "case find_child g ''Title'' of None \<Rightarrow> Some name | Some title \<Rightarrow> etext title"
  let ?e1 = "SubElement ge ''name'' ?tt"
  let ?e2 = "case find_child g ''Notes'' of None \<Rightarrow> ?e1 | Some desc \<Rightarrow> SubElement ?e1 ''desc'' (etext desc)"
  let ?e3 = "copy_tags g [''Developer'', ''Publisher'', ''Genre'', ''MaxPlayers''] ?e2"
  let ?e4 = "case find_child g ''ReleaseDate'' of
               None \<Rightarrow> ?e3
             | Some rel \<Rightarrow>
                 if truthy (etext rel) \<and> 10 \<le> length (the (etext rel))
                 then SubElement ?e3 ''releasedate''
                        (Some (remove_char CHR ''-'' (take 10 (the (etext rel))) @ ''T000000''))
                 else ?e3"
  have r: "snd (add_metadata g name ge) = ?e4"
    by (simp add: add_metadata_def Let_def del: copy_tags.simps)
  have 2: "children ?e2 = children ge @ [Element ''name'' ?tt []]
      @ (case find_child g ''Notes'' of None \<Rightarrow> [] | Some d \<Rightarrow> [Element ''desc'' (etext d) []])"
    by (cases "find_child g ''Notes''") (simp_all add: children_SubElement)
  have 4: "children ?e4 = children ?e3
      @ (case find_child g ''ReleaseDate'' of
          None \<Rightarrow> []
        | Some rel \<Rightarrow>
            if truthy (etext rel) \<and> 10 \<le> length (the (etext rel))
            then [Element ''releasedate''
                    (Some (remove_char CHR ''-'' (take 10 (the (etext rel))) @ ''T000000'')) []]
            else [])"
    by (cases "find_child g ''ReleaseDate''") (simp_all add: children_SubElement del: copy_tags.simps)
  show ?thesis
    unfolding r 4 children_copy_tags 2 by (simp only: append_assoc)
qed

lemma fst_add_metadata:
  "fst (add_metadata g name ge) = (case find_child g ''Title'' of None \<Rightarrow> Some name | Some t \<Rightarrow> etext t)"
  by (simp add: add_metadata_def Let_def)

lemma filter_desc_part:
  "t \<noteq> ''desc'' \<Longrightarrow>
   filter (\<lambda>c. tag c = t)
     (case find_child g ''Notes'' of None \<Rightarrow> [] | Some d \<Rightarrow> [Element ''desc'' (etext d) []]) = []"
  by (simp split: option.split)

lemma filter_tags_part_gen:
  "t \<notin> set (map lower tags) \<Longrightarrow>
   filter (\<lambda>c. tag c = t)
     (concat (map (\<lambda>tg. case find_child g tg of
                            None \<Rightarrow> []
                          | Some n \<Rightarrow> if truthy (etext n)
                                      then [Element (lower tg) (etext n) []] else [])
                tags)) = []"
  by (induction tags) (auto split: option.split)

lemma filter_tags_part:
  "t \<notin> {''developer'', ''publisher'', ''genre'', ''maxplayers''} \<Longrightarrow>
   filter (\<lambda>c. tag c = t)
     (concat (map (\<lambda>tg. case find_child g tg of
                            None \<Rightarrow> []
                          | Some n \<Rightarrow> if truthy (etext n)
                                      then [Element (lower tg) (etext n) []] else [])
                [''Developer'', ''Publisher'', ''Genre'', ''MaxPlayers''])) = []"
  by (rule filter_tags_part_gen) (simp add: lower_tags)

lemma filter_release_part:
  "t \<noteq> ''releasedate'' \<Longrightarrow>
   filter (\<lambda>c. tag c = t)
     (case find_child g ''ReleaseDate'' of
          None \<Rightarrow> []
        | Some rel \<Rightarrow>
            if truthy (etext rel) \<and> 10 \<le> length (the (etext rel))
            then [Element ''releasedate''
                    (Some (remove_char CHR ''-'' (take 10 (the (etext rel))) @ ''T000000'')) []]
            else []) = []"
  by (simp split: option.split)

lemma findall_cover_step:
  "t \<noteq> ''image'' \<Longrightarrow> findall (fst (cover_step d s n r st)) t = findall (fst st) t"
  by (cases st) (simp add: cover_step_def findall_SubElement split: option.splits prod.splits)

lemma findall_fanart_step:
  "t \<noteq> ''fanart'' \<Longrightarrow> findall (fst (fanart_step d s n r st)) t = findall (fst st) t"
  by (cases st) (simp add: fanart_step_def findall_SubElement split: option.splits prod.splits)

lemma findall_marquee_step:
  "t \<noteq> ''marquee'' \<Longrightarrow> findall (fst (marquee_step d s n r st)) t = findall (fst st) t"
  by (cases st) (simp add: marquee_step_def findall_SubElement split: option.splits prod.splits)

text \<open>The shape of the loop body on a matched game.\<close>

lemma process_game_matched:
  assumes "rom_map f = Some game_node"
  shows "process_game d rom_map f w =
     marquee_step d (sanitize_lb_title (fst (add_metadata game_node (fst (splitext f))
                        (SubElement (Element ''game'' None []) ''path'' (Some (''./'' @ f))))))
       (fst (splitext f)) (fst (splitext f))
       (fanart_step d (sanitize_lb_title (fst (add_metadata game_node (fst (splitext f))
                        (SubElement (Element ''game'' None []) ''path'' (Some (''./'' @ f))))))
          (fst (splitext f)) (fst (splitext f))
          (cover_step d (sanitize_lb_title (fst (add_metadata game_node (fst (splitext f))
                        (SubElement (Element ''game'' None []) ''path'' (Some (''./'' @ f))))))
             (fst (splitext f)) (fst (splitext f))
             (snd (add_metadata game_node (fst (splitext f))
                        (SubElement (Element ''game'' None []) ''path'' (Some (''./'' @ f)))),
              print_event (GameLine (fst (splitext f))) w)))"
  using assms by (simp add: process_game_def Let_def split: prod.splits)

lemma findall_process_game_matched:
  assumes "rom_map f = Some game_node" "t \<noteq> ''image''" "t \<noteq> ''fanart''" "t \<noteq> ''marquee''"
  shows "findall (fst (process_game d rom_map f w)) t =
         findall (snd (add_metadata game_node (fst (splitext f))
            (SubElement (Element ''game'' None []) ''path'' (Some (''./'' @ f))))) t"
  unfolding process_game_matched[of rom_map f game_node d w, OF assms(1)]
  using assms(2-4) by (simp add: findall_marquee_step findall_fanart_step findall_cover_step)

lemma findall_metadata:
  "findall (snd (add_metadata g name (SubElement (Element ''game'' None []) ''path'' v))) t =
     filter (\<lambda>c. tag c = t)
      ([Element ''path'' v [],
        Element ''name'' (case find_child g ''Title'' of None \<Rightarrow> Some name | Some t \<Rightarrow> etext t) []]
     @ (case find_child g ''Notes'' of None \<Rightarrow> [] | Some d \<Rightarrow> [Element ''desc'' (etext d) []])
     @ concat (map (\<lambda>tg. case find_child g tg of
                            None \<Rightarrow> []
                          | Some n \<Rightarrow> if truthy (etext n)
                                      then [Element (lower tg) (etext n) []] else [])
                [''Developer'', ''Publisher'', ''Genre'', ''MaxPlayers''])
     @ (case find_child g ''ReleaseDate'' of
          None \<Rightarrow> []
        | Some rel \<Rightarrow>
            if truthy (etext rel) \<and> 10 \<le> length (the (etext rel))
            then [Element ''releasedate''
                    (Some (remove_char CHR ''-'' (take 10 (the (etext rel))) @ ''T000000'')) []]
            else []))"
  unfolding findall_def children_add_metadata by (simp add: SubElement_def)

text \<open>
  C5. For a ROM file matched to a record, the entry has a \<open>releasedate\<close> field exactly when
  the record has a \<open>ReleaseDate\<close> element whose text is present and at least 10 characters
  long; the field is then the first 10 characters without their dashes, followed by
  \<open>T000000\<close>. In particular a 10-character \<open>YYYY-MM-DD\<close> gives \<open>YYYYMMDDT000000\<close>, and a
  shorter text gives no field.
\<close>

theorem releasedate_field:
  assumes "rom_map f = Some game_node"
  shows "findall (fst (process_game d rom_map f w)) ''releasedate'' =
           (case find_child game_node ''ReleaseDate'' of
              None \<Rightarrow> []
            | Some rel \<Rightarrow>
                (case etext rel of
                   None \<Rightarrow> []
                 | Some s \<Rightarrow>
                     if 10 \<le> length s
                     then [Element ''releasedate''
                             (Some (remove_char CHR ''-'' (take 10 s) @ ''T000000'')) []]
                     else []))
         \<and> (\<forall>rel y1 y2 y3 y4 m1 m2 d1 d2.
               find_child game_node ''ReleaseDate'' = Some rel \<longrightarrow>
               etext rel = Some [y1, y2, y3, y4, CHR ''-'', m1, m2, CHR ''-'', d1, d2] \<longrightarrow>
               CHR ''-'' \<notin> {y1, y2, y3, y4, m1, m2, d1, d2} \<longrightarrow>
               findall (fst (process_game d rom_map f w)) ''releasedate'' =
                 [Element ''releasedate''
                    (Some ([y1, y2, y3, y4, m1, m2, d1, d2] @ ''T000000'')) []])"
proof -
  have "findall (fst (process_game d rom_map f w)) ''releasedate'' =
        findall (snd (add_metadata game_node (fst (splitext f))
            (SubElement (Element ''game'' None []) ''path'' (Some (''./'' @ f))))) ''releasedate''"
    by (rule findall_process_game_matched) (use assms in simp_all)
  also have "\<dots> = filter (\<lambda>c. tag c = ''releasedate'')
     (case find_child game_node ''ReleaseDate'' of
          None \<Rightarrow> []
        | Some rel \<Rightarrow>
            if truthy (etext rel) \<and> 10 \<le> length (the (etext rel))
            then [Element ''releasedate''
                    (Some (remove_char CHR ''-'' (take 10 (the (etext rel))) @ ''T000000'')) []]
            else [])"
    unfolding findall_metadata filter_append
    by (simp add: filter_desc_part filter_tags_part del: map_eq_conv concat.simps list.map)
  also have "\<dots> = (case find_child game_node ''ReleaseDate'' of
        None \<Rightarrow> []
      | Some rel \<Rightarrow>
          (case etext rel of
             None \<Rightarrow> []
           | Some s \<Rightarrow>
               if 10 \<le> length s
               then [Element ''releasedate''
                       (Some (remove_char CHR ''-'' (take 10 s) @ ''T000000'')) []]
               else []))"
    by (auto split: option.split)
  finally have main: "findall (fst (process_game d rom_map f w)) ''releasedate'' =
      (case find_child game_node ''ReleaseDate'' of
        None \<Rightarrow> []
      | Some rel \<Rightarrow>
          (case etext rel of
             None \<Rightarrow> []
           | Some s \<Rightarrow>
               if 10 \<le> length s
               then [Element ''releasedate''
                       (Some (remove_char CHR ''-'' (take 10 s) @ ''T000000'')) []]
               else []))" .
  show ?thesis
    unfolding main by (simp add: remove_char_def)
qed

theorem releasedate_field_witness:
  "[''mario.z64'' \<mapsto> example_game] ''mario.z64'' = Some example_game
   \<and> findall (fst (process_game [''N64''] [''mario.z64'' \<mapsto> example_game] ''mario.z64''
                     example_world)) ''releasedate'' =
       [Element ''releasedate'' (Some ''19960623T000000'') []]"
proof -
  have h: "[''mario.z64'' \<mapsto> example_game] ''mario.z64'' = Some example_game"
    by simp
  have r: "find_child example_game ''ReleaseDate'' =
           Some (Element ''ReleaseDate'' (Some ''1996-06-23T00:00:00-07:00'') [])"
    by (simp add: find_child_def example_game_def)
  show ?thesis
    using releasedate_field[of "[''mario.z64'' \<mapsto> example_game]" "''mario.z64''" example_game
            "[''N64'']" example_world, OF h]
    by (simp add: r remove_char_def)
qed

text \<open>
  C8. A ROM file with no record under its full file name gets an entry with exactly two
  fields, \<open>path\<close> (\<open>./\<close> and the file name) and \<open>name\<close> (the file name without its
  extension); the file tree is left as it was, only the progress line is printed, and the
  loop goes on with the next file.
\<close>

theorem unmatched_rom_entry:
  assumes "rom_map f = None"
  shows "process_game d rom_map f w =
           (Element ''game'' None
              [Element ''path'' (Some (''./'' @ f)) [],
               Element ''name'' (Some (fst (splitext f))) []],
            print_event (GameLine (fst (splitext f))) w)
         \<and> (lower (snd (splitext f)) \<in> set game_exts \<longrightarrow>
              games_loop d rom_map (f # files) (new_root, count, w) =
              games_loop d rom_map files
                (Element (tag new_root) (etext new_root)
                   (children new_root @
                    [Element ''game'' None
                       [Element ''path'' (Some (''./'' @ f)) [],
                        Element ''name'' (Some (fst (splitext f))) []]]),
                 count + 1, print_event (GameLine (fst (splitext f))) w))"
proof -
  have g: "process_game d rom_map f w =
           (Element ''game'' None
              [Element ''path'' (Some (''./'' @ f)) [],
               Element ''name'' (Some (fst (splitext f))) []],
            print_event (GameLine (fst (splitext f))) w)"
    using assms by (simp add: process_game_def Let_def SubElement_def)
  show ?thesis using g by simp
qed

theorem unmatched_rom_entry_witness:
  "build_rom_map (findall example_xml ''Game'') Map.empty ''zelda.z64'' = None
   \<and> lower (snd (splitext ''zelda.z64'')) \<in> set game_exts
   \<and> process_game [''N64''] (build_rom_map (findall example_xml ''Game'') Map.empty)
        ''zelda.z64'' example_world =
       (Element ''game'' None
          [Element ''path'' (Some ''./zelda.z64'') [], Element ''name'' (Some ''zelda'') []],
        print_event (GameLine ''zelda'') example_world)"
proof -
  have h: "build_rom_map (findall example_xml ''Game'') Map.empty ''zelda.z64'' = None"
    by code_simp
  have e: "lower (snd (splitext ''zelda.z64'')) \<in> set game_exts"
    by code_simp
  have n: "fst (splitext ''zelda.z64'') = ''zelda''"
    by code_simp
  show ?thesis
    using unmatched_rom_entry[of "build_rom_map (findall example_xml ''Game'') Map.empty"
            "''zelda.z64''" "[''N64'']" example_world, OF h] h e
    by (simp add: n)
qed

section \<open>Properties of the metadata lookup\<close>

lemma build_rom_map_general:
  "build_rom_map games m0 key =
     (case filter (\<lambda>g. \<exists>ap. find_child g ''ApplicationPath'' = Some ap \<and> truthy (etext ap)
                        \<and> basename (the (etext ap)) = key) games of
        [] \<Rightarrow> m0 key
      | g # gs \<Rightarrow> Some (last (g # gs)))"
proof (induction games arbitrary: m0)
  case Nil
  then show ?case by simp
next
  case (Cons game games)
  show ?case
  proof (cases "find_child game ''ApplicationPath''")
    case None
    then show ?thesis using Cons[of m0] by simp
  next
    case (Some ap)
    show ?thesis
    proof (cases "truthy (etext ap)")
      case False
      then show ?thesis using Some Cons[of m0] by simp
    next
      case True
      have ih: "build_rom_map games (m0(basename (the (etext ap)) \<mapsto> game)) key =
         (case filter (\<lambda>g. \<exists>ap. find_child g ''ApplicationPath'' = Some ap \<and> truthy (etext ap)
                        \<and> basename (the (etext ap)) = key) games of
            [] \<Rightarrow> (m0(basename (the (etext ap)) \<mapsto> game)) key
          | g # gs \<Rightarrow> Some (last (g # gs)))"
        by (rule Cons)
      have step: "build_rom_map (game # games) m0 key =
          build_rom_map games (m0(basename (the (etext ap)) \<mapsto> game)) key"
        using Some True by simp
      show ?thesis
        unfolding step ih using Some True by (simp split: list.splits)
    qed
  qed
qed

text \<open>
  C10. A name is in the lookup only through a \<open>Game\<close> element that has an
  \<open>ApplicationPath\<close> child with non-empty text whose base name is that name, so an element
  without such a child is never entered; and among the elements with the same base name the
  last one in document order is the one kept.
\<close>

theorem rom_map_last_wins:
  "build_rom_map games Map.empty key =
     (case filter (\<lambda>g. \<exists>ap. find_child g ''ApplicationPath'' = Some ap \<and> truthy (etext ap)
                        \<and> basename (the (etext ap)) = key) games of
        [] \<Rightarrow> None
      | g # gs \<Rightarrow> Some (last (g # gs)))
   \<and> (\<forall>game. build_rom_map games Map.empty key = Some game \<longrightarrow>
         game \<in> set games
         \<and> (\<exists>ap. find_child game ''ApplicationPath'' = Some ap \<and> truthy (etext ap)
                \<and> basename (the (etext ap)) = key))"
proof -
  let ?P = "\<lambda>g. \<exists>ap. find_child g ''ApplicationPath'' = Some ap \<and> truthy (etext ap)
                        \<and> basename (the (etext ap)) = key"
  have a: "build_rom_map games Map.empty key =
     (case filter ?P games of [] \<Rightarrow> None | g # gs \<Rightarrow> Some (last (g # gs)))"
    using build_rom_map_general[of games Map.empty key] by simp
  have b: "game \<in> set games \<and> ?P game" if "build_rom_map games Map.empty key = Some game" for game
  proof (cases "filter ?P games")
    case Nil
    then show ?thesis using that a by simp
  next
    case (Cons g gs)
    then have "game = last (filter ?P games)" using that a by simp
    moreover have "last (filter ?P games) \<in> set (filter ?P games)"
      using Cons by (intro last_in_set) simp
    ultimately show ?thesis by simp
  qed
  show ?thesis using a b by blast
qed

theorem rom_map_last_wins_witness:
  "build_rom_map (findall example_xml ''Game'') Map.empty ''mario.z64'' = Some example_game_reissue
   \<and> example_game_reissue \<in> set (findall example_xml ''Game'')
   \<and> (\<exists>ap. find_child example_game_reissue ''ApplicationPath'' = Some ap \<and> truthy (etext ap)
          \<and> basename (the (etext ap)) = ''mario.z64'')"
proof -
  have h: "build_rom_map (findall example_xml ''Game'') Map.empty ''mario.z64'' =
           Some example_game_reissue"
    by code_simp
  show ?thesis
    using rom_map_last_wins[of "findall example_xml ''Game''" "''mario.z64''"] h by blast
qed

section \<open>The description field\<close>

text \<open>
  C6. The claim is that \<open>desc\<close>, like \<open>developer\<close>, \<open>publisher\<close>, \<open>genre\<close> and
  \<open>maxplayers\<close>, is copied only from a source element that is present with non-empty
  text. On the example record, whose \<open>Notes\<close> and \<open>Publisher\<close> elements are both present
  and empty, the program emits an empty \<open>desc\<close> field and no \<open>publisher\<close> field: the
  copy of \<open>Notes\<close> tests only that the element exists.
\<close>

theorem empty_notes_emits_desc:
  "findall (fst (process_game [''N64''] [''mario.z64'' \<mapsto> example_game] ''mario.z64''
                    example_world)) ''desc'' = [Element ''desc'' None []]
   \<and> findall (fst (process_game [''N64''] [''mario.z64'' \<mapsto> example_game] ''mario.z64''
                    example_world)) ''publisher'' = []
   \<and> find_child example_game ''Notes'' = Some (Element ''Notes'' None [])
   \<and> find_child example_game ''Publisher'' = Some (Element ''Publisher'' None [])"
proof -
  have h: "[''mario.z64'' \<mapsto> example_game] ''mario.z64'' = Some example_game"
    by simp
  have n: "find_child example_game ''Notes'' = Some (Element ''Notes'' None [])"
    by (simp add: find_child_def example_game_def)
  have p: "find_child example_game ''Publisher'' = Some (Element ''Publisher'' None [])"
    by (simp add: find_child_def example_game_def)
  have others: "find_child example_game ''Developer'' = Some (Element ''Developer'' (Some ''Nintendo'') [])"
    "find_child example_game ''Genre'' = None" "find_child example_game ''MaxPlayers'' = None"
    by (simp_all add: find_child_def example_game_def)
  have d: "findall (fst (process_game [''N64''] [''mario.z64'' \<mapsto> example_game] ''mario.z64''
                    example_world)) ''desc'' = [Element ''desc'' None []]"
    unfolding findall_process_game_matched[of "[''mario.z64'' \<mapsto> example_game]" "''mario.z64''"
        example_game "''desc''" "[''N64'']" example_world, OF h, simplified]
      findall_metadata filter_append
    by (simp add: n filter_tags_part filter_release_part del: map_eq_conv concat.simps list.map)
  have q: "findall (fst (process_game [''N64''] [''mario.z64'' \<mapsto> example_game] ''mario.z64''
                    example_world)) ''publisher'' = []"
    unfolding findall_process_game_matched[of "[''mario.z64'' \<mapsto> example_game]" "''mario.z64''"
        example_game "''publisher''" "[''N64'']" example_world, OF h, simplified]
      findall_metadata filter_append
    by (simp add: n p others lower_tags filter_desc_part filter_release_part)
  show ?thesis using d q n p by blast
qed

section \<open>A metadata file that does not parse\<close>

text \<open>
  C7. When the metadata file found in a folder fails to parse, \<open>process_directory\<close>
  returns normally with the file tree unchanged (so no game is processed and no
  \<open>gamelist.xml\<close> is written); it has printed the folder line and the error line and
  nothing else, and the scan goes on with the remaining folders from that state.
\<close>

theorem parse_failure_skips_folder:
  assumes "get_launchbox_xml w [d] = Some lb_xml"
    and "ET_parse (tree w) lb_xml = Inl e"
  shows "\<exists>w'. process_directory d w = Inr w'
            \<and> tree w' = tree w
            \<and> save_ok w' = save_ok w
            \<and> floor_on_tie w' = floor_on_tie w
            \<and> glob_magic w' = glob_magic w
            \<and> printed w' = printed w @ [Processing d (last lb_xml), XmlError e]
            \<and> (d \<notin> set excludes \<and> \<not> startswith d ''.'' \<longrightarrow>
                 scan_dirs (d # dirs) found w = scan_dirs dirs (found + 1) w')"
proof -
  let ?w' = "print_event (XmlError e) (print_event (Processing d (last lb_xml)) w)"
  have p: "process_directory d w = Inr ?w'"
    using assms by (simp add: process_directory_def Let_def print_event_def)
  have "scan_dirs (d # dirs) found w = scan_dirs dirs (found + 1) ?w'"
    if "d \<notin> set excludes \<and> \<not> startswith d ''.''"
    using that assms(1) p by simp
  then show ?thesis
    using p by (intro exI[of _ ?w']) (simp add: print_event_def)
qed

text \<open>C7 at the example folder \<open>Broken\<close>, whose \<open>Export.xml\<close> is not XML.\<close>

theorem parse_failure_skips_folder_witness:
  "get_launchbox_xml example_world [''Broken''] = Some [''Broken'', ''Export.xml'']
   \<and> ET_parse (tree example_world) [''Broken'', ''Export.xml''] = Inl ParseError
   \<and> (\<exists>w'. process_directory ''Broken'' example_world = Inr w'
            \<and> tree w' = tree example_world
            \<and> save_ok w' = save_ok example_world
            \<and> floor_on_tie w' = floor_on_tie example_world
            \<and> glob_magic w' = glob_magic example_world
            \<and> printed w' = printed example_world
                 @ [Processing ''Broken'' (last [''Broken'', ''Export.xml'']), XmlError ParseError]
            \<and> (''Broken'' \<notin> set excludes \<and> \<not> startswith ''Broken'' ''.'' \<longrightarrow>
                 scan_dirs (''Broken'' # []) 0 example_world = scan_dirs [] (0 + 1) w'))"
proof -
  have t: "tree example_world = example_tree"
    by (simp add: example_world_def)
  have m: "\<not> (\<exists>c \<in> set [''Broken'']. has_magic c)"
    by (simp add: has_magic_def)
  have g: "glob_xml example_world [''Broken''] = [[''Broken'', ''Export.xml'']]"
    unfolding glob_xml_def t using m
    by (simp add: example_tree_def endswith_def startswith_def)
  have a: "get_launchbox_xml example_world [''Broken''] = Some [''Broken'', ''Export.xml'']"
    unfolding get_launchbox_xml_def g
    by (simp add: endswith_def lower_def)
  have b: "ET_parse (tree example_world) [''Broken'', ''Export.xml''] = Inl ParseError"
    unfolding t by code_simp
  show ?thesis
    using parse_failure_skips_folder[of example_world "''Broken''" "[''Broken'', ''Export.xml'']"
            ParseError "[]" 0, OF a b] a b
    by blast
qed

section \<open>Properties of the image normalizer\<close>

lemma round_aspect_bounds:
  assumes "0 < e"
  shows "1 \<le> round_aspect tie e key"
    and "int (round_aspect tie e key) \<le> \<lceil>e\<rceil>"
    and "e - 1 < of_nat (round_aspect tie e key)"
    and "of_nat (round_aspect tie e key) < e + 1"
proof -
  define c where "c = (if key \<lfloor>e\<rfloor> < key \<lceil>e\<rceil> then \<lfloor>e\<rfloor>
                       else if key \<lceil>e\<rceil> < key \<lfloor>e\<rfloor> then \<lceil>e\<rceil>
                       else if tie then \<lfloor>e\<rfloor> else \<lceil>e\<rceil>)"
  have r: "round_aspect tie e key = nat (max c 1)"
    by (simp add: round_aspect_def c_def)
  have ce: "1 \<le> \<lceil>e\<rceil>" using assms by (simp add: Ints_1 less_ceiling_iff[symmetric] flip: zero_less_ceiling) 
  have c1: "\<lfloor>e\<rfloor> \<le> c" and c2: "c \<le> \<lceil>e\<rceil>"
    by (auto simp: c_def floor_le_ceiling)
  have "0 \<le> max c 1" by simp
  then have m: "int (round_aspect tie e key) = max c 1"
    unfolding r by (rule nat_0_le)
  show "1 \<le> round_aspect tie e key" using m by linarith
  show "int (round_aspect tie e key) \<le> \<lceil>e\<rceil>" using m c2 ce by linarith
  have "e - 1 < of_int \<lfloor>e\<rfloor>" by linarith
  also have "\<dots> \<le> of_int (max c 1)" using c1 by simp
  finally show "e - 1 < of_nat (round_aspect tie e key)"
    using m by (metis of_int_of_nat_eq)
  have "(of_int (max c 1) :: rat) \<le> of_int \<lceil>e\<rceil>" using c2 ce by simp
  also have "\<dots> < e + 1" by linarith
  finally show "of_nat (round_aspect tie e key) < e + 1"
    using m by (metis of_int_of_nat_eq)
qed

lemma preserve_aspect_ratio_cases:
  fixes img :: image and bx by' :: nat
  assumes W: "0 < width img" and H: "0 < height img" and X: "0 < bx" and Y: "0 < by'"
  shows "(width img \<le> bx \<and> height img \<le> by' \<and> preserve_aspect_ratio tie img (bx, by') = Inr None)
       \<or> (\<not> (width img \<le> bx \<and> height img \<le> by')
            \<and> (\<exists>x y. preserve_aspect_ratio tie img (bx, by') = Inr (Some (x, y))
                  \<and> 1 \<le> x \<and> 1 \<le> y \<and> x \<le> bx \<and> y \<le> by'
                  \<and> x \<le> width img \<and> y \<le> height img
                  \<and> ((y = by' \<and> \<bar>of_nat x - of_nat by' * (of_nat (width img) / of_nat (height img) :: rat)\<bar> < 1)
                     \<or> (x = bx \<and> \<bar>of_nat y - of_nat bx * (of_nat (height img) / of_nat (width img) :: rat)\<bar> < 1))))"
proof (cases "width img \<le> bx \<and> height img \<le> by'")
  case True
  then show ?thesis by (simp add: preserve_aspect_ratio_def)
next
  case out: False
  define a :: rat where "a = of_nat (width img) / of_nat (height img)"
  have a_pos: "0 < a" using W H by (simp add: a_def)
  show ?thesis
  proof (cases "of_nat bx / of_nat by' \<ge> a")
    case True
    define e where "e = of_nat by' * a"
    define x where "x = round_aspect tie e (\<lambda>n. \<bar>a - of_int n / of_nat by'\<bar>)"
    have p: "preserve_aspect_ratio tie img (bx, by') = Inr (Some (x, by'))"
      using out True H Y unfolding x_def e_def a_def
      by (simp add: preserve_aspect_ratio_def Let_def)
    have e_pos: "0 < e" using a_pos Y by (simp add: e_def)
    have e_le: "e \<le> of_nat bx"
      using True Y by (simp add: e_def field_simps)
    have cross: "width img * by' \<le> bx * height img"
    proof -
      have "(of_nat (width img) * of_nat by' :: rat) \<le> of_nat bx * of_nat (height img)"
        using True H Y by (simp add: a_def field_simps)
      then show ?thesis by (metis of_nat_le_iff of_nat_mult)
    qed
    have yh: "by' < height img"
    proof (rule ccontr)
      assume "\<not> by' < height img"
      then have hy: "height img \<le> by'" by simp
      then have "bx < width img" using out by simp
      then have "bx * height img < width img * height img" using H by simp
      also have "\<dots> \<le> width img * by'" using hy by simp
      finally show False using cross by simp
    qed
    have e_lt: "e < of_nat (width img)"
    proof -
      have "of_nat by' * a < of_nat (height img) * a"
        using yh a_pos by simp
      also have "\<dots> = of_nat (width img)" using H by (simp add: a_def)
      finally show ?thesis by (simp add: e_def)
    qed
    have rb: "1 \<le> x" "int x \<le> \<lceil>e\<rceil>" "e - 1 < of_nat x" "of_nat x < e + 1"
      unfolding x_def using round_aspect_bounds[OF e_pos] by blast+
    have "\<lceil>e\<rceil> \<le> int bx" using e_le by (simp add: ceiling_le_iff)
    then have xb: "x \<le> bx" using rb(2) by linarith
    have "\<lceil>e\<rceil> \<le> int (width img)" using e_lt by (simp add: ceiling_le_iff)
    then have xw: "x \<le> width img" using rb(2) by linarith
    have ab: "\<bar>of_nat x - of_nat by' * a\<bar> < 1"
      using rb(3,4) by (simp add: e_def abs_less_iff)
    show ?thesis
      using out p rb(1) Y xb xw yh ab by (simp add: a_def)
  next
    case False
    then have lt: "of_nat bx / of_nat by' < a" by simp
    define e where "e = of_nat bx / a"
    define y where "y = round_aspect tie e (\<lambda>n. if n = 0 then 0 else \<bar>a - of_nat bx / of_int n\<bar>)"
    have p: "preserve_aspect_ratio tie img (bx, by') = Inr (Some (bx, y))"
      using out False H Y unfolding y_def e_def a_def
      by (simp add: preserve_aspect_ratio_def Let_def)
    have e_pos: "0 < e" using a_pos X by (simp add: e_def)
    have e_lt_y: "e < of_nat by'"
      using lt a_pos Y by (simp add: e_def field_simps)
    have cross: "bx * height img < width img * by'"
    proof -
      have "(of_nat bx * of_nat (height img) :: rat) < of_nat (width img) * of_nat by'"
        using lt H Y by (simp add: a_def field_simps)
      then show ?thesis by (metis of_nat_less_iff of_nat_mult)
    qed
    have xw: "bx < width img"
    proof (rule ccontr)
      assume "\<not> bx < width img"
      then have wx: "width img \<le> bx" by simp
      then have "by' < height img" using out by simp
      then have "width img * by' < width img * height img" using W by simp
      also have "\<dots> \<le> bx * height img" using wx by simp
      finally show False using cross by simp
    qed
    have e_lt: "e < of_nat (height img)"
    proof -
      have "of_nat bx / a < of_nat (width img) / a"
        using xw a_pos by (simp add: divide_strict_right_mono)
      also have "\<dots> = of_nat (height img)" using W H by (simp add: a_def)
      finally show ?thesis by (simp add: e_def)
    qed
    have rb: "1 \<le> y" "int y \<le> \<lceil>e\<rceil>" "e - 1 < of_nat y" "of_nat y < e + 1"
      unfolding y_def using round_aspect_bounds[OF e_pos] by blast+
    have "\<lceil>e\<rceil> \<le> int by'" using e_lt_y by (simp add: ceiling_le_iff)
    then have yb: "y \<le> by'" using rb(2) by linarith
    have "\<lceil>e\<rceil> \<le> int (height img)" using e_lt by (simp add: ceiling_le_iff)
    then have yh: "y \<le> height img" using rb(2) by linarith
    have ee: "e = of_nat bx * (of_nat (height img) / of_nat (width img))"
      by (simp add: e_def a_def)
    have ab: "\<bar>of_nat y - of_nat bx * (of_nat (height img) / of_nat (width img) :: rat)\<bar> < 1"
      using rb(3,4) unfolding ee by (simp add: abs_less_iff)
    show ?thesis
      using out p rb(1) X yb yh xw ab by simp
  qed
qed

lemma thumbnail_props:
  fixes img :: image and bx by' :: nat
  assumes W: "0 < width img" and H: "0 < height img" and X: "0 < bx" and Y: "0 < by'"
  shows "\<exists>out. thumbnail tie img (bx, by') = Inr out
           \<and> mode out = mode img \<and> orientation out = orientation img
           \<and> (out = img
               \<or> pixels out = Resampled (0, 0, of_nat (width img), of_nat (height img))
                                (width out, height out) (pixels img))
           \<and> width out \<le> bx \<and> height out \<le> by'
           \<and> width out \<le> width img \<and> height out \<le> height img
           \<and> (width img \<le> bx \<and> height img \<le> by' \<longrightarrow> out = img)
           \<and> (out = img
               \<or> (height out = by' \<and> \<bar>of_nat (width out) - of_nat by' * (of_nat (width img) / of_nat (height img) :: rat)\<bar> < 1)
               \<or> (width out = bx \<and> \<bar>of_nat (height out) - of_nat bx * (of_nat (height img) / of_nat (width img) :: rat)\<bar> < 1))"
proof -
  from preserve_aspect_ratio_cases[OF W H X Y]
  consider (fits) "width img \<le> bx" "height img \<le> by'" "preserve_aspect_ratio tie img (bx, by') = Inr None"
    | (scaled) x y where "\<not> (width img \<le> bx \<and> height img \<le> by')"
        "preserve_aspect_ratio tie img (bx, by') = Inr (Some (x, y))"
        "1 \<le> x" "1 \<le> y" "x \<le> bx" "y \<le> by'" "x \<le> width img" "y \<le> height img"
        "(y = by' \<and> \<bar>of_nat x - of_nat by' * (of_nat (width img) / of_nat (height img) :: rat)\<bar> < 1)
         \<or> (x = bx \<and> \<bar>of_nat y - of_nat bx * (of_nat (height img) / of_nat (width img) :: rat)\<bar> < 1)"
    by blast
  then show ?thesis
  proof cases
    case fits
    then show ?thesis by (simp add: thumbnail_def)
  next
    case scaled
    have ne: "(width img, height img) \<noteq> (x, y)"
      using scaled(1,5,6) by auto
    have "thumbnail tie img (bx, by') =
            Inr (img\<lparr>width := x, height := y,
                     pixels := Resampled (0, 0, of_nat (width img), of_nat (height img)) (x, y)
                                 (pixels img)\<rparr>)"
    proof -
      have rz: "resize img (x, y) (0, 0, of_nat (width img), of_nat (height img)) =
            Inr (img\<lparr>width := x, height := y,
                     pixels := Resampled (0, 0, of_nat (width img), of_nat (height img)) (x, y)
                                 (pixels img)\<rparr>)"
        using ne scaled(3,4) by (auto simp: resize_def)
      show ?thesis
        using scaled(2) ne rz by (simp add: thumbnail_def)
    qed
    moreover have "\<not> (width img \<le> bx \<and> height img \<le> by')" by (rule scaled(1))
    ultimately show ?thesis
      using scaled(3-9) by (intro exI[of _ "img\<lparr>width := x, height := y,
                     pixels := Resampled (0, 0, of_nat (width img), of_nat (height img)) (x, y)
                                 (pixels img)\<rparr>"]) auto
  qed
qed

lemma map_of_update_same: "map_of (AList.update k v es) k = Some v"
  by (simp add: update_conv')

lemma write_file_resolve:
  "write_file p c t = Inr t' \<Longrightarrow> resolve t' p = Some (File c)"
proof (induction p c t arbitrary: t' rule: write_file.induct)
  case (1 c n)
  then show ?case by simp
next
  case (2 f p c c')
  then show ?case by simp
next
  case (3 f c es)
  then show ?case
    by (auto simp: map_of_update_same split: option.splits fsnode.splits)
next
  case (4 d v va c es)
  show ?case
  proof (cases "map_of es d")
    case None
    then show ?thesis using 4(2) by simp
  next
    case (Some sub)
    show ?thesis
    proof (cases "write_file (v # va) c sub")
      case (Inl e)
      then show ?thesis using 4(2) Some by simp
    next
      case (Inr n)
      then have "resolve n (v # va) = Some (File c)" using 4(1)[OF Some] by simp
      moreover have "t' = Dir (AList.update d n es)" using 4(2) Some Inr by simp
      ultimately show ?thesis by (simp add: map_of_update_same)
    qed
  qed
qed

lemma Image_save_resolve:
  "Image_save img dest enc w = Inr w' \<Longrightarrow>
   resolve (tree w') dest = Some (File (ImageFile (img\<lparr>orientation := None\<rparr>) enc))"
  by (auto simp: Image_save_def write_file_resolve split: if_splits sum.splits)


lemma exif_transpose_dims:
  "(width (exif_transpose i), height (exif_transpose i)) =
     (if orientation i \<in> {Some 5, Some 6, Some 7, Some 8} then (height i, width i)
      else (width i, height i))"
  by (auto simp: exif_transpose_def split: option.splits)

text \<open>Each operation succeeds exactly when each of its four steps does.\<close>

lemma cover_iff:
  "fst (process_image_cover src dest w) \<longleftrightarrow>
     (\<exists>img0 out t w'.
        Image_open (tree w) src = Inr img0
        \<and> thumbnail
             (floor_on_tie w
                (width (if mode (exif_transpose img0) \<noteq> ''RGB''
                        then convert (exif_transpose img0) ''RGB'' else exif_transpose img0),
                 height (if mode (exif_transpose img0) \<noteq> ''RGB''
                         then convert (exif_transpose img0) ''RGB'' else exif_transpose img0))
                TARGET_RES_COVER)
             (if mode (exif_transpose img0) \<noteq> ''RGB''
              then convert (exif_transpose img0) ''RGB'' else exif_transpose img0)
             TARGET_RES_COVER = Inr out
        \<and> makedirs (butlast dest) (tree w) = Inr t
        \<and> Image_save out dest jpeg_encoding (w\<lparr>tree := t\<rparr>) = Inr w'
        \<and> snd (process_image_cover src dest w) = w')"
  by (auto simp: process_image_cover_def Let_def split: sum.splits)

lemma fanart_iff:
  "fst (process_image_fanart src dest w) \<longleftrightarrow>
     (\<exists>img0 out t w'.
        Image_open (tree w) src = Inr img0
        \<and> ImageOps_fit
             (if mode (exif_transpose img0) \<noteq> ''RGB''
              then convert (exif_transpose img0) ''RGB'' else exif_transpose img0)
             TARGET_RES_FANART (1 / 2, 1 / 2) = Inr out
        \<and> makedirs (butlast dest) (tree w) = Inr t
        \<and> Image_save out dest jpeg_encoding (w\<lparr>tree := t\<rparr>) = Inr w'
        \<and> snd (process_image_fanart src dest w) = w')"
  by (auto simp: process_image_fanart_def Let_def split: sum.splits)

lemma marquee_iff:
  "fst (process_image_marquee src dest w) \<longleftrightarrow>
     (\<exists>img0 out t w'.
        Image_open (tree w) src = Inr img0
        \<and> thumbnail (floor_on_tie w (width img0, height img0) TARGET_RES_LOGO) img0
             TARGET_RES_LOGO = Inr out
        \<and> makedirs (butlast dest) (tree w) = Inr t
        \<and> Image_save out dest png_encoding (w\<lparr>tree := t\<rparr>) = Inr w'
        \<and> snd (process_image_marquee src dest w) = w')"
  by (auto simp: process_image_marquee_def Let_def split: sum.splits)

lemma fit_crop_props:
  assumes "height img \<noteq> 0"
  shows "\<exists>l t r b. fit_crop img (1280, 720) (1 / 2, 1 / 2) = Inr (l, t, r, b)
           \<and> 0 \<le> l \<and> 0 \<le> t \<and> r \<le> of_nat (width img) \<and> b \<le> of_nat (height img)
           \<and> l + r = of_nat (width img) \<and> t + b = of_nat (height img)
           \<and> (r - l) * 720 = (b - t) * 1280
           \<and> (l = 0 \<or> t = 0)"
proof -
  define W :: rat where "W = of_nat (width img)"
  define H :: rat where "H = of_nat (height img)"
  have Hpos: "0 < H" using assms by (simp add: H_def)
  have Wnn: "0 \<le> W" by (simp add: W_def)
  consider (eq) "W / H = 16 / 9" | (wide) "W / H > 16 / 9" | (tall) "W / H < 16 / 9"
    by linarith
  then show ?thesis
  proof cases
    case eq
    then have e: "(W - 0) * 720 = (H - 0) * 1280" using Hpos by (simp add: field_simps)
    have fc: "fit_crop img (1280, 720) (1 / 2, 1 / 2) = Inr (0, 0, W, H)"
      using eq Hpos by (simp add: fit_crop_def Let_def W_def H_def)
    have 5: "(0::rat) \<le> 0" "W \<le> W" "H \<le> H" "0 + W = W" "0 + H = H" by simp_all
    show ?thesis
      using fc e 5 unfolding W_def H_def by blast
  next
    case wide
    then have e: "H * 16 < W * 9" using Hpos by (simp add: field_simps)
    define l where "l = (W - 16 / 9 * H) * (1 / 2)"
    define r where "r = l + 16 / 9 * H"
    have fc: "fit_crop img (1280, 720) (1 / 2, 1 / 2) = Inr (l, 0, r, H)"
      using wide Hpos by (simp add: fit_crop_def Let_def W_def H_def l_def r_def)
    have 1: "0 \<le> l" using e by (simp add: l_def)
    have 2: "r \<le> W" using e by (simp add: l_def r_def field_simps)
    have 3: "l + r = W" by (simp add: l_def r_def field_simps)
    have 4: "(r - l) * 720 = (H - 0) * 1280" by (simp add: r_def)
    have 5: "(0::rat) \<le> 0" "H \<le> H" "0 + H = H" by simp_all
    show ?thesis
      using fc 1 2 3 4 5 unfolding W_def H_def by blast
  next
    case tall
    then have e: "W * 9 < H * 16" using Hpos by (simp add: field_simps)
    define t where "t = (H - W / (16 / 9)) * (1 / 2)"
    define b where "b = t + W / (16 / 9)"
    have fc: "fit_crop img (1280, 720) (1 / 2, 1 / 2) = Inr (0, t, W, b)"
      using tall Hpos by (simp add: fit_crop_def Let_def W_def H_def t_def b_def)
    have 1: "0 \<le> t" using e by (simp add: t_def)
    have 2: "b \<le> H" using e by (simp add: t_def b_def field_simps)
    have 3: "t + b = H" by (simp add: t_def b_def field_simps)
    have 4: "(W - 0) * 720 = (b - t) * 1280" by (simp add: b_def)
    have 5: "(0::rat) \<le> 0" "W \<le> W" "0 + W = W" by simp_all
    show ?thesis
      using fc 1 2 3 4 5 unfolding W_def H_def by blast
  qed
qed

lemma ImageOps_fit_result:
  assumes "ImageOps_fit img (1280, 720) (1 / 2, 1 / 2) = Inr out"
  shows "height img \<noteq> 0
         \<and> (\<exists>l t r b. fit_crop img (1280, 720) (1 / 2, 1 / 2) = Inr (l, t, r, b)
               \<and> width out = 1280 \<and> height out = 720 \<and> mode out = mode img
               \<and> orientation out = orientation img
               \<and> (pixels out = Resampled (l, t, r, b) (1280, 720) (pixels img)
                   \<or> (width img = 1280 \<and> height img = 720 \<and> pixels out = pixels img)))"
proof -
  have h: "height img \<noteq> 0"
    using assms by (auto simp: ImageOps_fit_def fit_crop_def Let_def split: if_splits)
  from fit_crop_props[OF h] obtain l t r b where
    c: "fit_crop img (1280, 720) (1 / 2, 1 / 2) = Inr (l, t, r, b)" by blast
  have r: "resize img (1280, 720) (l, t, r, b) = Inr out"
    using assms c by (simp add: ImageOps_fit_def)
  have "width out = 1280 \<and> height out = 720 \<and> mode out = mode img
          \<and> orientation out = orientation img
          \<and> (pixels out = Resampled (l, t, r, b) (1280, 720) (pixels img)
              \<or> (width img = 1280 \<and> height img = 720 \<and> pixels out = pixels img))"
    using r by (auto simp: resize_def split: if_splits)
  then show ?thesis using h c by blast
qed

lemma cover_fst:
  assumes "Image_open (tree w) src = Inr img0"
    and "nimg = (if mode (exif_transpose img0) \<noteq> ''RGB''
                 then convert (exif_transpose img0) ''RGB'' else exif_transpose img0)"
    and "thumbnail (floor_on_tie w (width nimg, height nimg) TARGET_RES_COVER) nimg
           TARGET_RES_COVER = Inr out"
    and "\<exists>t t'. makedirs (butlast dest) (tree w) = Inr t
                \<and> write_file dest (ImageFile (out\<lparr>orientation := None\<rparr>) jpeg_encoding) t = Inr t'"
    and "save_ok w dest out jpeg_encoding"
  shows "fst (process_image_cover src dest w)"
  using assms by (auto simp: process_image_cover_def Let_def Image_save_def)

lemma fanart_fst:
  assumes "Image_open (tree w) src = Inr img0"
    and "nimg = (if mode (exif_transpose img0) \<noteq> ''RGB''
                 then convert (exif_transpose img0) ''RGB'' else exif_transpose img0)"
    and "ImageOps_fit nimg TARGET_RES_FANART (1 / 2, 1 / 2) = Inr out"
    and "\<exists>t t'. makedirs (butlast dest) (tree w) = Inr t
                \<and> write_file dest (ImageFile (out\<lparr>orientation := None\<rparr>) jpeg_encoding) t = Inr t'"
    and "save_ok w dest out jpeg_encoding"
  shows "fst (process_image_fanart src dest w)"
  using assms by (auto simp: process_image_fanart_def Let_def Image_save_def)

lemma marquee_fst:
  assumes "Image_open (tree w) src = Inr img0"
    and "thumbnail (floor_on_tie w (width img0, height img0) TARGET_RES_LOGO) img0
           TARGET_RES_LOGO = Inr out"
    and "\<exists>t t'. makedirs (butlast dest) (tree w) = Inr t
                \<and> write_file dest (ImageFile (out\<lparr>orientation := None\<rparr>) png_encoding) t = Inr t'"
    and "save_ok w dest out png_encoding"
  shows "fst (process_image_marquee src dest w)"
  using assms by (auto simp: process_image_marquee_def Let_def Image_save_def)

text \<open>
  C2. Whenever \<open>process_image_fanart\<close> reports success, the file it wrote at the destination
  is an image of exactly 1280 by 720 pixels, encoded as JPEG with quality 80 and the optimize
  flag, whatever the dimensions of the source. Its pixels are the crop box \<open>(l, t, r, b)\<close>
  of the orientation-normalized source, converted to RGB, resampled to 1280 by 720 (or that
  image itself when it already is 1280 by 720). The box is the one \<open>ImageOps.fit\<close> computes
  with centering \<open>(1/2, 1/2)\<close>: it lies inside the source, has the ratio 1280 to 720, leaves
  equal margins on opposite sides, and spans the full width or the full height.
\<close>

theorem fanart_output_size:
  assumes "fst (process_image_fanart src dest w)"
  shows "\<exists>out img0 nimg l t r b.
           Image_open (tree w) src = Inr img0
           \<and> nimg = (if mode (exif_transpose img0) \<noteq> ''RGB''
                      then convert (exif_transpose img0) ''RGB'' else exif_transpose img0)
           \<and> resolve (tree (snd (process_image_fanart src dest w))) dest =
               Some (File (ImageFile out jpeg_encoding))
           \<and> width out = 1280 \<and> height out = 720
           \<and> format jpeg_encoding = ''JPEG'' \<and> quality jpeg_encoding = Some 80
           \<and> optimize jpeg_encoding
           \<and> (pixels out = Resampled (l, t, r, b) (1280, 720) (pixels nimg)
               \<or> (width nimg = 1280 \<and> height nimg = 720 \<and> pixels out = pixels nimg))
           \<and> fit_crop nimg (1280, 720) (1 / 2, 1 / 2) = Inr (l, t, r, b)
           \<and> 0 \<le> l \<and> 0 \<le> t
           \<and> r \<le> of_nat (width nimg) \<and> b \<le> of_nat (height nimg)
           \<and> l + r = of_nat (width nimg) \<and> t + b = of_nat (height nimg)
           \<and> (r - l) * 720 = (b - t) * 1280
           \<and> (l = 0 \<or> t = 0)"
proof -
  from assms obtain img0 out0 t0 w' where
    o: "Image_open (tree w) src = Inr img0"
    and f: "ImageOps_fit (if mode (exif_transpose img0) \<noteq> ''RGB''
                          then convert (exif_transpose img0) ''RGB'' else exif_transpose img0)
              TARGET_RES_FANART (1 / 2, 1 / 2) = Inr out0"
    and s: "Image_save out0 dest jpeg_encoding (w\<lparr>tree := t0\<rparr>) = Inr w'"
    and e: "snd (process_image_fanart src dest w) = w'"
    unfolding fanart_iff by blast
  define nimg where "nimg = (if mode (exif_transpose img0) \<noteq> ''RGB''
                          then convert (exif_transpose img0) ''RGB'' else exif_transpose img0)"
  have f': "ImageOps_fit nimg (1280, 720) (1 / 2, 1 / 2) = Inr out0"
    using f by (simp add: nimg_def TARGET_RES_FANART_def)
  from ImageOps_fit_result[OF f'] obtain l t r b where
    h: "height nimg \<noteq> 0"
    and c: "fit_crop nimg (1280, 720) (1 / 2, 1 / 2) = Inr (l, t, r, b)"
    and d: "width out0 = 1280" "height out0 = 720"
    and p: "pixels out0 = Resampled (l, t, r, b) (1280, 720) (pixels nimg)
             \<or> (width nimg = 1280 \<and> height nimg = 720 \<and> pixels out0 = pixels nimg)"
    by blast
  from fit_crop_props[OF h] c have
    g: "0 \<le> l" "0 \<le> t" "r \<le> of_nat (width nimg)" "b \<le> of_nat (height nimg)"
      "l + r = of_nat (width nimg)" "t + b = of_nat (height nimg)"
      "(r - l) * 720 = (b - t) * 1280" "l = 0 \<or> t = 0"
    by auto
  let ?out = "out0\<lparr>orientation := None\<rparr>"
  have r: "resolve (tree (snd (process_image_fanart src dest w))) dest =
             Some (File (ImageFile ?out jpeg_encoding))"
    unfolding e using Image_save_resolve[OF s] .
  have q: "width ?out = 1280" "height ?out = 720"
    "pixels ?out = Resampled (l, t, r, b) (1280, 720) (pixels nimg)
       \<or> (width nimg = 1280 \<and> height nimg = 720 \<and> pixels ?out = pixels nimg)"
    using d p by simp_all
  have enc: "format jpeg_encoding = ''JPEG'' \<and> quality jpeg_encoding = Some 80
             \<and> optimize jpeg_encoding"
    by (simp add: jpeg_encoding_def IMG_QUALITY_def)
  show ?thesis
    using o nimg_def r q enc c g by blast
qed

lemma example_screenshot_open:
  "Image_open (tree example_world) [''N64'', ''Screenshot'', ''Mario  64.png''] =
     Inr \<lparr>width = 640, height = 480, mode = ''RGBA'', orientation = None, pixels = Original 2\<rparr>"
  by (simp add: Image_open_def example_world_def example_tree_def example_image_def)

lemma example_screenshot_crop:
  "fit_crop \<lparr>width = 640, height = 480, mode = ''RGB'', orientation = None,
              pixels = Converted ''RGB'' (Original 2)\<rparr> (1280, 720) (1 / 2, 1 / 2) =
     Inr (0, 60, 640, 420)"
  by (simp add: fit_crop_def Let_def)

lemma example_fanart_fst:
  "fst (process_image_fanart [''N64'', ''Screenshot'', ''Mario  64.png'']
          [''N64'', ''images'', ''fanart'', ''mario.jpg''] example_world)"
proof (rule fanart_fst)
  show "Image_open (tree example_world) [''N64'', ''Screenshot'', ''Mario  64.png''] =
     Inr \<lparr>width = 640, height = 480, mode = ''RGBA'', orientation = None, pixels = Original 2\<rparr>"
    by (rule example_screenshot_open)
  show "\<lparr>width = 640, height = 480, mode = ''RGB'', orientation = None,
              pixels = Converted ''RGB'' (Original 2)\<rparr> =
        (if mode (exif_transpose \<lparr>width = 640, height = 480, mode = ''RGBA'', orientation = None, pixels = Original 2\<rparr>) \<noteq> ''RGB''
         then convert (exif_transpose \<lparr>width = 640, height = 480, mode = ''RGBA'', orientation = None, pixels = Original 2\<rparr>) ''RGB''
         else exif_transpose \<lparr>width = 640, height = 480, mode = ''RGBA'', orientation = None, pixels = Original 2\<rparr>)"
    by (simp add: exif_transpose_def convert_def)
  show "ImageOps_fit \<lparr>width = 640, height = 480, mode = ''RGB'', orientation = None,
              pixels = Converted ''RGB'' (Original 2)\<rparr> TARGET_RES_FANART (1 / 2, 1 / 2) =
          Inr \<lparr>width = 1280, height = 720, mode = ''RGB'', orientation = None,
               pixels = Resampled (0, 60, 640, 420) (1280, 720) (Converted ''RGB'' (Original 2))\<rparr>"
    by (simp add: ImageOps_fit_def TARGET_RES_FANART_def example_screenshot_crop resize_def)
  show "\<exists>t t'. makedirs (butlast [''N64'', ''images'', ''fanart'', ''mario.jpg'']) (tree example_world) = Inr t
                \<and> write_file [''N64'', ''images'', ''fanart'', ''mario.jpg'']
                     (ImageFile (\<lparr>width = 1280, height = 720, mode = ''RGB'', orientation = None,
               pixels = Resampled (0, 60, 640, 420) (1280, 720) (Converted ''RGB'' (Original 2))\<rparr>\<lparr>orientation := None\<rparr>) jpeg_encoding) t = Inr t'"
    by (simp add: example_world_def example_tree_def)
  show "save_ok example_world [''N64'', ''images'', ''fanart'', ''mario.jpg'']
          \<lparr>width = 1280, height = 720, mode = ''RGB'', orientation = None,
               pixels = Resampled (0, 60, 640, 420) (1280, 720) (Converted ''RGB'' (Original 2))\<rparr> jpeg_encoding"
    by (simp add: example_world_def)
qed

text \<open>
  C2 at the example screenshot, 640 by 480 pixels: the rows 60 to 420 of the full width are
  what is resampled to 1280 by 720.
\<close>

theorem fanart_output_size_witness:
  "fst (process_image_fanart [''N64'', ''Screenshot'', ''Mario  64.png'']
          [''N64'', ''images'', ''fanart'', ''mario.jpg''] example_world)
   \<and> Image_open (tree example_world) [''N64'', ''Screenshot'', ''Mario  64.png''] =
       Inr \<lparr>width = 640, height = 480, mode = ''RGBA'', orientation = None, pixels = Original 2\<rparr>
   \<and> (\<exists>out. resolve (tree (snd (process_image_fanart [''N64'', ''Screenshot'', ''Mario  64.png'']
                                 [''N64'', ''images'', ''fanart'', ''mario.jpg''] example_world)))
               [''N64'', ''images'', ''fanart'', ''mario.jpg''] =
             Some (File (ImageFile out jpeg_encoding))
           \<and> width out = 1280 \<and> height out = 720
           \<and> pixels out = Resampled (0, 60, 640, 420) (1280, 720) (Converted ''RGB'' (Original 2)))"
proof -
  from fanart_output_size[OF example_fanart_fst] obtain out img0 nimg l t r b where
    o: "Image_open (tree example_world) [''N64'', ''Screenshot'', ''Mario  64.png''] = Inr img0"
    and n: "nimg = (if mode (exif_transpose img0) \<noteq> ''RGB''
                      then convert (exif_transpose img0) ''RGB'' else exif_transpose img0)"
    and r: "resolve (tree (snd (process_image_fanart [''N64'', ''Screenshot'', ''Mario  64.png'']
                                 [''N64'', ''images'', ''fanart'', ''mario.jpg''] example_world)))
               [''N64'', ''images'', ''fanart'', ''mario.jpg''] =
             Some (File (ImageFile out jpeg_encoding))"
    and d: "width out = 1280" "height out = 720"
    and p: "pixels out = Resampled (l, t, r, b) (1280, 720) (pixels nimg)
               \<or> (width nimg = 1280 \<and> height nimg = 720 \<and> pixels out = pixels nimg)"
    and c: "fit_crop nimg (1280, 720) (1 / 2, 1 / 2) = Inr (l, t, r, b)"
    by blast
  have i: "img0 = \<lparr>width = 640, height = 480, mode = ''RGBA'', orientation = None, pixels = Original 2\<rparr>"
    using o example_screenshot_open by simp
  have n': "nimg = \<lparr>width = 640, height = 480, mode = ''RGB'', orientation = None,
              pixels = Converted ''RGB'' (Original 2)\<rparr>"
    unfolding n i by (simp add: exif_transpose_def convert_def)
  have b: "(l, t, r, b) = (0, 60, 640, 420)"
    using c unfolding n' example_screenshot_crop by simp
  have "pixels out = Resampled (0, 60, 640, 420) (1280, 720) (Converted ''RGB'' (Original 2))"
    using p b unfolding n' by simp
  then show ?thesis
    using example_fanart_fst example_screenshot_open r d by blast
qed

text \<open>
  C3, as amended. For a source image of at least one pixel in each direction: whenever
  \<open>process_image_cover\<close> reports success the written image is at most 512 by 512, and
  whenever \<open>process_image_marquee\<close> reports success the written image is at most 512 by
  256. Neither dimension exceeds that of the image handed to \<open>thumbnail\<close> (for the cover,
  the source after orientation normalization, which exchanges width and height for EXIF
  orientations 5 to 8; for the marquee, the source itself), an image already inside the box
  keeps those dimensions, and otherwise one side equals the box and the other is within one
  pixel of the proportional value.
\<close>

theorem thumbnail_outputs_bounded:
  assumes "Image_open (tree w) src = Inr img0"
    and "0 < width img0" and "0 < height img0"
  shows "(fst (process_image_cover src dest w) \<longrightarrow>
           (\<exists>out. resolve (tree (snd (process_image_cover src dest w))) dest =
                    Some (File (ImageFile out jpeg_encoding))
              \<and> width out \<le> 512 \<and> height out \<le> 512
              \<and> width out \<le> width (exif_transpose img0)
              \<and> height out \<le> height (exif_transpose img0)
              \<and> (width img0 \<le> 512 \<and> height img0 \<le> 512 \<longrightarrow>
                    width out = width (exif_transpose img0)
                    \<and> height out = height (exif_transpose img0))
              \<and> ((width out = width (exif_transpose img0)
                    \<and> height out = height (exif_transpose img0))
                  \<or> (height out = 512
                      \<and> \<bar>of_nat (width out) - 512 * (of_nat (width (exif_transpose img0))
                              / of_nat (height (exif_transpose img0)) :: rat)\<bar> < 1)
                  \<or> (width out = 512
                      \<and> \<bar>of_nat (height out) - 512 * (of_nat (height (exif_transpose img0))
                              / of_nat (width (exif_transpose img0)) :: rat)\<bar> < 1))))
       \<and> (width (exif_transpose img0), height (exif_transpose img0)) =
            (if orientation img0 \<in> {Some 5, Some 6, Some 7, Some 8}
             then (height img0, width img0) else (width img0, height img0))
       \<and> (fst (process_image_marquee src dest w) \<longrightarrow>
           (\<exists>out. resolve (tree (snd (process_image_marquee src dest w))) dest =
                    Some (File (ImageFile out png_encoding))
              \<and> width out \<le> 512 \<and> height out \<le> 256
              \<and> width out \<le> width img0 \<and> height out \<le> height img0
              \<and> (width img0 \<le> 512 \<and> height img0 \<le> 256 \<longrightarrow>
                    width out = width img0 \<and> height out = height img0)
              \<and> ((width out = width img0 \<and> height out = height img0)
                  \<or> (height out = 256
                      \<and> \<bar>of_nat (width out) - 256 * (of_nat (width img0)
                              / of_nat (height img0) :: rat)\<bar> < 1)
                  \<or> (width out = 512
                      \<and> \<bar>of_nat (height out) - 512 * (of_nat (height img0)
                              / of_nat (width img0) :: rat)\<bar> < 1))))"
proof -
  let ?t = "exif_transpose img0"
  let ?c = "if mode ?t \<noteq> ''RGB'' then convert ?t ''RGB'' else ?t"
  have dims: "(width ?t, height ?t) =
            (if orientation img0 \<in> {Some 5, Some 6, Some 7, Some 8}
             then (height img0, width img0) else (width img0, height img0))"
    by (rule exif_transpose_dims)
  have cw: "width ?c = width ?t" and ch: "height ?c = height ?t"
    by (simp_all add: convert_def)
  have tpos: "0 < width ?t" "0 < height ?t"
    using assms(2,3) dims by (auto split: if_splits)
  have box: "width img0 \<le> 512 \<and> height img0 \<le> 512
             \<longleftrightarrow> width ?t \<le> 512 \<and> height ?t \<le> 512"
    using dims by (auto split: if_splits)
  have cover: "\<exists>out. resolve (tree (snd (process_image_cover src dest w))) dest =
                    Some (File (ImageFile out jpeg_encoding))
              \<and> width out \<le> 512 \<and> height out \<le> 512
              \<and> width out \<le> width ?t \<and> height out \<le> height ?t
              \<and> (width img0 \<le> 512 \<and> height img0 \<le> 512 \<longrightarrow>
                    width out = width ?t \<and> height out = height ?t)
              \<and> ((width out = width ?t \<and> height out = height ?t)
                  \<or> (height out = 512
                      \<and> \<bar>of_nat (width out) - 512 * (of_nat (width ?t) / of_nat (height ?t) :: rat)\<bar> < 1)
                  \<or> (width out = 512
                      \<and> \<bar>of_nat (height out) - 512 * (of_nat (height ?t) / of_nat (width ?t) :: rat)\<bar> < 1))"
    if ok: "fst (process_image_cover src dest w)"
  proof -
    from ok assms(1) obtain out0 t0 w' where
      th: "thumbnail (floor_on_tie w (width ?c, height ?c) TARGET_RES_COVER) ?c
             TARGET_RES_COVER = Inr out0"
      and sv: "Image_save out0 dest jpeg_encoding (w\<lparr>tree := t0\<rparr>) = Inr w'"
      and e: "snd (process_image_cover src dest w) = w'"
      unfolding cover_iff by auto
    define out where "out = out0\<lparr>orientation := None\<rparr>"
    have r: "resolve (tree (snd (process_image_cover src dest w))) dest =
                Some (File (ImageFile out jpeg_encoding))"
      unfolding e out_def using Image_save_resolve[OF sv] .
    have od: "width out = width out0" "height out = height out0"
      by (simp_all add: out_def)
    have p: "0 < width ?c" "0 < height ?c" using tpos cw ch by simp_all
    from thumbnail_props[OF p, of 512 512 "floor_on_tie w (width ?c, height ?c) TARGET_RES_COVER"]
      th od obtain
      b: "width out \<le> 512" "height out \<le> 512" "width out \<le> width ?c" "height out \<le> height ?c"
      and u: "width ?c \<le> 512 \<and> height ?c \<le> 512 \<longrightarrow> out0 = ?c"
      and a: "out0 = ?c
               \<or> (height out = 512 \<and> \<bar>of_nat (width out) - of_nat 512 * (of_nat (width ?c) / of_nat (height ?c) :: rat)\<bar> < 1)
               \<or> (width out = 512 \<and> \<bar>of_nat (height out) - of_nat 512 * (of_nat (height ?c) / of_nat (width ?c) :: rat)\<bar> < 1)"
      by (auto simp: TARGET_RES_COVER_def)
    have u': "width img0 \<le> 512 \<and> height img0 \<le> 512 \<longrightarrow>
                width out = width ?t \<and> height out = height ?t"
      using u box cw ch od by auto
    have a': "(width out = width ?t \<and> height out = height ?t)
               \<or> (height out = 512 \<and> \<bar>of_nat (width out) - 512 * (of_nat (width ?t) / of_nat (height ?t) :: rat)\<bar> < 1)
               \<or> (width out = 512 \<and> \<bar>of_nat (height out) - 512 * (of_nat (height ?t) / of_nat (width ?t) :: rat)\<bar> < 1)"
      using a cw ch od by auto
    show ?thesis
      using r b u' a' cw ch by (intro exI[of _ out]) simp
  qed
  have marquee: "\<exists>out. resolve (tree (snd (process_image_marquee src dest w))) dest =
                    Some (File (ImageFile out png_encoding))
              \<and> width out \<le> 512 \<and> height out \<le> 256
              \<and> width out \<le> width img0 \<and> height out \<le> height img0
              \<and> (width img0 \<le> 512 \<and> height img0 \<le> 256 \<longrightarrow>
                    width out = width img0 \<and> height out = height img0)
              \<and> ((width out = width img0 \<and> height out = height img0)
                  \<or> (height out = 256
                      \<and> \<bar>of_nat (width out) - 256 * (of_nat (width img0) / of_nat (height img0) :: rat)\<bar> < 1)
                  \<or> (width out = 512
                      \<and> \<bar>of_nat (height out) - 512 * (of_nat (height img0) / of_nat (width img0) :: rat)\<bar> < 1))"
    if ok: "fst (process_image_marquee src dest w)"
  proof -
    from ok assms(1) obtain out0 t0 w' where
      th: "thumbnail (floor_on_tie w (width img0, height img0) TARGET_RES_LOGO) img0
             TARGET_RES_LOGO = Inr out0"
      and sv: "Image_save out0 dest png_encoding (w\<lparr>tree := t0\<rparr>) = Inr w'"
      and e: "snd (process_image_marquee src dest w) = w'"
      unfolding marquee_iff by auto
    define out where "out = out0\<lparr>orientation := None\<rparr>"
    have r: "resolve (tree (snd (process_image_marquee src dest w))) dest =
                Some (File (ImageFile out png_encoding))"
      unfolding e out_def using Image_save_resolve[OF sv] .
    have od: "width out = width out0" "height out = height out0"
      by (simp_all add: out_def)
    from thumbnail_props[OF assms(2,3), of 512 256
        "floor_on_tie w (width img0, height img0) TARGET_RES_LOGO"] th od obtain
      b: "width out \<le> 512" "height out \<le> 256" "width out \<le> width img0" "height out \<le> height img0"
      and u: "width img0 \<le> 512 \<and> height img0 \<le> 256 \<longrightarrow> out0 = img0"
      and a: "out0 = img0
               \<or> (height out = 256 \<and> \<bar>of_nat (width out) - of_nat 256 * (of_nat (width img0) / of_nat (height img0) :: rat)\<bar> < 1)
               \<or> (width out = 512 \<and> \<bar>of_nat (height out) - of_nat 512 * (of_nat (height img0) / of_nat (width img0) :: rat)\<bar> < 1)"
      by (auto simp: TARGET_RES_LOGO_def)
    have a': "(width out = width img0 \<and> height out = height img0)
               \<or> (height out = 256 \<and> \<bar>of_nat (width out) - 256 * (of_nat (width img0) / of_nat (height img0) :: rat)\<bar> < 1)
               \<or> (width out = 512 \<and> \<bar>of_nat (height out) - 512 * (of_nat (height img0) / of_nat (width img0) :: rat)\<bar> < 1)"
      using a od by auto
    show ?thesis
      using r b u a' od by (intro exI[of _ out]) auto
  qed
  show ?thesis
    using cover marquee dims by blast
qed

lemma rotated_open:
  "Image_open (tree rotated_world) [''Front'', ''photo.jpg''] =
     Inr \<lparr>width = 100, height = 200, mode = ''RGBA'', orientation = Some 6, pixels = Original 3\<rparr>"
  by (simp add: Image_open_def rotated_world_def example_image_def)

lemma rotated_cover_run:
  "process_image_cover [''Front'', ''photo.jpg''] [''images'', ''covers'', ''photo.jpg''] rotated_world =
     (True, rotated_world\<lparr>tree :=
        Dir [(''Front'', Dir [(''photo.jpg'', File (example_image 100 200 (Some 6) 3))]),
             (''images'', Dir [(''covers'', Dir [(''photo.jpg'',
                File (ImageFile \<lparr>width = 200, height = 100, mode = ''RGB'', orientation = None,
                                 pixels = Converted ''RGB'' (Transposed 6 (Original 3))\<rparr>
                        jpeg_encoding))])])]\<rparr>)"
proof -
  have n: "(if mode (exif_transpose \<lparr>width = 100, height = 200, mode = ''RGBA'', orientation = Some 6, pixels = Original 3\<rparr>) \<noteq> ''RGB''
            then convert (exif_transpose \<lparr>width = 100, height = 200, mode = ''RGBA'', orientation = Some 6, pixels = Original 3\<rparr>) ''RGB''
            else exif_transpose \<lparr>width = 100, height = 200, mode = ''RGBA'', orientation = Some 6, pixels = Original 3\<rparr>) =
           \<lparr>width = 200, height = 100, mode = ''RGB'', orientation = None,
             pixels = Converted ''RGB'' (Transposed 6 (Original 3))\<rparr>"
    by (simp add: exif_transpose_def convert_def)
  have th: "thumbnail tie \<lparr>width = 200, height = 100, mode = ''RGB'', orientation = None,
             pixels = Converted ''RGB'' (Transposed 6 (Original 3))\<rparr> TARGET_RES_COVER =
            Inr \<lparr>width = 200, height = 100, mode = ''RGB'', orientation = None,
             pixels = Converted ''RGB'' (Transposed 6 (Original 3))\<rparr>" for tie
    by (simp add: thumbnail_def preserve_aspect_ratio_def TARGET_RES_COVER_def)
  have md: "makedirs (butlast [''images'', ''covers'', ''photo.jpg'']) (tree rotated_world) =
          Inr (Dir [(''Front'', Dir [(''photo.jpg'', File (example_image 100 200 (Some 6) 3))]),
                    (''images'', Dir [(''covers'', Dir [])])])"
    by (simp add: rotated_world_def)
  show ?thesis
    unfolding process_image_cover_def rotated_open
    by (simp add: Let_def n th md Image_save_def rotated_world_def)
qed

text \<open>C3 at the photo stored on its side: inside the box, written as 200 by 100.\<close>

theorem thumbnail_outputs_bounded_witness:
  "Image_open (tree rotated_world) [''Front'', ''photo.jpg''] =
     Inr \<lparr>width = 100, height = 200, mode = ''RGBA'', orientation = Some 6, pixels = Original 3\<rparr>
   \<and> fst (process_image_cover [''Front'', ''photo.jpg''] [''images'', ''covers'', ''photo.jpg'']
            rotated_world)
   \<and> (\<exists>out. resolve (tree (snd (process_image_cover [''Front'', ''photo.jpg'']
                                  [''images'', ''covers'', ''photo.jpg''] rotated_world)))
               [''images'', ''covers'', ''photo.jpg''] =
             Some (File (ImageFile out jpeg_encoding))
          \<and> width out \<le> 512 \<and> height out \<le> 512
          \<and> width out = 200 \<and> height out = 100)"
proof -
  have f: "fst (process_image_cover [''Front'', ''photo.jpg''] [''images'', ''covers'', ''photo.jpg'']
            rotated_world)"
    by (simp add: rotated_cover_run)
  have p: "0 < width \<lparr>width = 100, height = 200, mode = ''RGBA'', orientation = Some 6, pixels = Original 3\<rparr>"
    "0 < height \<lparr>width = 100, height = 200, mode = ''RGBA'', orientation = Some 6, pixels = Original 3\<rparr>"
    by simp_all
  show ?thesis
    using thumbnail_outputs_bounded[OF rotated_open p,
            of "[''images'', ''covers'', ''photo.jpg'']"] f rotated_open
    by (auto simp: exif_transpose_def)
qed

lemma floor_ceiling_1536_5: "\<lfloor>1536 / 5 :: rat\<rfloor> = 307" "\<lceil>1536 / 5 :: rat\<rceil> = 308"
  by (rule floor_unique, simp, simp) (rule ceiling_unique, simp, simp)

lemma thumbnail_1000_600:
  "thumbnail tie \<lparr>width = 1000, height = 600, mode = ''RGB'', orientation = None,
                  pixels = Converted ''RGB'' (Original 4)\<rparr> TARGET_RES_COVER =
     Inr \<lparr>width = 512, height = 307, mode = ''RGB'', orientation = None,
          pixels = Resampled (0, 0, 1000, 600) (512, 307) (Converted ''RGB'' (Original 4))\<rparr>"
  by (simp add: thumbnail_def preserve_aspect_ratio_def round_aspect_def resize_def Let_def
      TARGET_RES_COVER_def floor_ceiling_1536_5)

lemma example_cover_open_after_print:
  "Image_open (tree (print_event ev example_world))
          [''N64'', ''Front'', ''Box'', ''Mario_ 64-01.JPG''] =
     Inr \<lparr>width = 1000, height = 600, mode = ''RGBA'', orientation = None, pixels = Original 4\<rparr>"
  by (simp add: Image_open_def print_event_def example_world_def example_tree_def
        example_image_def)

lemma example_cover_open:
  "Image_open (tree example_world) [''N64'', ''Front'', ''Box'', ''Mario_ 64-01.JPG''] =
     Inr \<lparr>width = 1000, height = 600, mode = ''RGBA'', orientation = None, pixels = Original 4\<rparr>"
  by (simp add: Image_open_def example_world_def example_tree_def example_image_def)

lemma example_cover_normalized:
  "(if mode (exif_transpose \<lparr>width = 1000, height = 600, mode = ''RGBA'', orientation = None, pixels = Original 4\<rparr>) \<noteq> ''RGB''
    then convert (exif_transpose \<lparr>width = 1000, height = 600, mode = ''RGBA'', orientation = None, pixels = Original 4\<rparr>) ''RGB''
    else exif_transpose \<lparr>width = 1000, height = 600, mode = ''RGBA'', orientation = None, pixels = Original 4\<rparr>) =
   \<lparr>width = 1000, height = 600, mode = ''RGB'', orientation = None,
     pixels = Converted ''RGB'' (Original 4)\<rparr>"
  by (simp add: exif_transpose_def convert_def)

lemma example_cover_after_print:
  "fst (process_image_cover [''N64'', ''Front'', ''Box'', ''Mario_ 64-01.JPG'']
          [''N64'', ''images'', ''covers'', ''mario.jpg''] (print_event ev example_world))"
proof (rule cover_fst)
  show "Image_open (tree (print_event ev example_world))
          [''N64'', ''Front'', ''Box'', ''Mario_ 64-01.JPG''] =
     Inr \<lparr>width = 1000, height = 600, mode = ''RGBA'', orientation = None, pixels = Original 4\<rparr>"
    by (rule example_cover_open_after_print)
  show "\<lparr>width = 1000, height = 600, mode = ''RGB'', orientation = None,
          pixels = Converted ''RGB'' (Original 4)\<rparr> =
        (if mode (exif_transpose \<lparr>width = 1000, height = 600, mode = ''RGBA'', orientation = None, pixels = Original 4\<rparr>) \<noteq> ''RGB''
         then convert (exif_transpose \<lparr>width = 1000, height = 600, mode = ''RGBA'', orientation = None, pixels = Original 4\<rparr>) ''RGB''
         else exif_transpose \<lparr>width = 1000, height = 600, mode = ''RGBA'', orientation = None, pixels = Original 4\<rparr>)"
    by (simp add: example_cover_normalized)
  show "thumbnail (floor_on_tie (print_event ev example_world)
                    (width \<lparr>width = 1000, height = 600, mode = ''RGB'', orientation = None,
                             pixels = Converted ''RGB'' (Original 4)\<rparr>,
                     height \<lparr>width = 1000, height = 600, mode = ''RGB'', orientation = None,
                             pixels = Converted ''RGB'' (Original 4)\<rparr>) TARGET_RES_COVER)
          \<lparr>width = 1000, height = 600, mode = ''RGB'', orientation = None,
            pixels = Converted ''RGB'' (Original 4)\<rparr> TARGET_RES_COVER =
        Inr \<lparr>width = 512, height = 307, mode = ''RGB'', orientation = None,
          pixels = Resampled (0, 0, 1000, 600) (512, 307) (Converted ''RGB'' (Original 4))\<rparr>"
    by (rule thumbnail_1000_600)
  show "\<exists>t t'. makedirs (butlast [''N64'', ''images'', ''covers'', ''mario.jpg''])
                  (tree (print_event ev example_world)) = Inr t
                \<and> write_file [''N64'', ''images'', ''covers'', ''mario.jpg'']
                     (ImageFile (\<lparr>width = 512, height = 307, mode = ''RGB'', orientation = None,
          pixels = Resampled (0, 0, 1000, 600) (512, 307) (Converted ''RGB'' (Original 4))\<rparr>\<lparr>orientation := None\<rparr>) jpeg_encoding) t = Inr t'"
    by (simp add: print_event_def example_world_def example_tree_def)
  show "save_ok (print_event ev example_world) [''N64'', ''images'', ''covers'', ''mario.jpg'']
          \<lparr>width = 512, height = 307, mode = ''RGB'', orientation = None,
          pixels = Resampled (0, 0, 1000, 600) (512, 307) (Converted ''RGB'' (Original 4))\<rparr> jpeg_encoding"
    by (simp add: print_event_def example_world_def)
qed

lemma example_cover_fst:
  "fst (process_image_cover [''N64'', ''Front'', ''Box'', ''Mario_ 64-01.JPG'']
          [''N64'', ''images'', ''covers'', ''mario.jpg''] example_world)"
proof -
  have "print_event Banner (example_world\<lparr>printed := []\<rparr>) = example_world\<lparr>printed := [Banner]\<rparr>"
    by (simp add: print_event_def example_world_def)
  have e: "fst (process_image_cover src dest (w\<lparr>printed := p\<rparr>)) = fst (process_image_cover src dest w)"
    for src dest w p
    by (simp add: process_image_cover_def Let_def Image_save_def print_event_def
        split: sum.splits)
  have "fst (process_image_cover [''N64'', ''Front'', ''Box'', ''Mario_ 64-01.JPG'']
          [''N64'', ''images'', ''covers'', ''mario.jpg''] (print_event Banner example_world))"
    by (rule example_cover_after_print)
  then show ?thesis
    unfolding print_event_def e .
qed

text \<open>
  C3 as stated fails in two ways. The cover of a 100 by 200 source with EXIF orientation 6,
  already inside the box, is written as 200 by 100: its dimensions are not unchanged. And
  the cover of a 1000 by 600 source is written as 512 by 307, which is not the same ratio.
\<close>

theorem dimensions_unchanged_counterexample:
  "Image_open (tree rotated_world) [''Front'', ''photo.jpg''] =
     Inr \<lparr>width = 100, height = 200, mode = ''RGBA'', orientation = Some 6, pixels = Original 3\<rparr>
   \<and> fst (process_image_cover [''Front'', ''photo.jpg''] [''images'', ''covers'', ''photo.jpg'']
            rotated_world)
   \<and> resolve (tree (snd (process_image_cover [''Front'', ''photo.jpg'']
                           [''images'', ''covers'', ''photo.jpg''] rotated_world)))
        [''images'', ''covers'', ''photo.jpg''] =
      Some (File (ImageFile \<lparr>width = 200, height = 100, mode = ''RGB'', orientation = None,
                              pixels = Converted ''RGB'' (Transposed 6 (Original 3))\<rparr>
                    jpeg_encoding))
   \<and> Image_open (tree example_world) [''N64'', ''Front'', ''Box'', ''Mario_ 64-01.JPG''] =
      Inr \<lparr>width = 1000, height = 600, mode = ''RGBA'', orientation = None, pixels = Original 4\<rparr>
   \<and> fst (process_image_cover [''N64'', ''Front'', ''Box'', ''Mario_ 64-01.JPG'']
            [''N64'', ''images'', ''covers'', ''mario.jpg''] example_world)
   \<and> resolve (tree (snd (process_image_cover [''N64'', ''Front'', ''Box'', ''Mario_ 64-01.JPG'']
                           [''N64'', ''images'', ''covers'', ''mario.jpg''] example_world)))
        [''N64'', ''images'', ''covers'', ''mario.jpg''] =
      Some (File (ImageFile \<lparr>width = 512, height = 307, mode = ''RGB'', orientation = None,
                              pixels = Resampled (0, 0, 1000, 600) (512, 307)
                                         (Converted ''RGB'' (Original 4))\<rparr>
                    jpeg_encoding))
   \<and> (512 :: nat) * 600 \<noteq> 307 * 1000"
proof -
  have a: "fst (process_image_cover [''Front'', ''photo.jpg''] [''images'', ''covers'', ''photo.jpg'']
            rotated_world)"
    by (simp add: rotated_cover_run)
  have b: "resolve (tree (snd (process_image_cover [''Front'', ''photo.jpg'']
                           [''images'', ''covers'', ''photo.jpg''] rotated_world)))
        [''images'', ''covers'', ''photo.jpg''] =
      Some (File (ImageFile \<lparr>width = 200, height = 100, mode = ''RGB'', orientation = None,
                              pixels = Converted ''RGB'' (Transposed 6 (Original 3))\<rparr>
                    jpeg_encoding))"
    by (simp add: rotated_cover_run)
  from example_cover_fst obtain img0 out t w' where
    o: "Image_open (tree example_world) [''N64'', ''Front'', ''Box'', ''Mario_ 64-01.JPG''] = Inr img0"
    and th: "thumbnail
             (floor_on_tie example_world
                (width (if mode (exif_transpose img0) \<noteq> ''RGB''
                        then convert (exif_transpose img0) ''RGB'' else exif_transpose img0),
                 height (if mode (exif_transpose img0) \<noteq> ''RGB''
                         then convert (exif_transpose img0) ''RGB'' else exif_transpose img0))
                TARGET_RES_COVER)
             (if mode (exif_transpose img0) \<noteq> ''RGB''
              then convert (exif_transpose img0) ''RGB'' else exif_transpose img0)
             TARGET_RES_COVER = Inr out"
    and sv: "Image_save out [''N64'', ''images'', ''covers'', ''mario.jpg''] jpeg_encoding
               (example_world\<lparr>tree := t\<rparr>) = Inr w'"
    and e: "snd (process_image_cover [''N64'', ''Front'', ''Box'', ''Mario_ 64-01.JPG'']
            [''N64'', ''images'', ''covers'', ''mario.jpg''] example_world) = w'"
    unfolding cover_iff by blast
  have i: "img0 = \<lparr>width = 1000, height = 600, mode = ''RGBA'', orientation = None, pixels = Original 4\<rparr>"
    using o example_cover_open by simp
  have ou: "out = \<lparr>width = 512, height = 307, mode = ''RGB'', orientation = None,
          pixels = Resampled (0, 0, 1000, 600) (512, 307) (Converted ''RGB'' (Original 4))\<rparr>"
    using th unfolding i example_cover_normalized thumbnail_1000_600 by simp
  have c: "resolve (tree (snd (process_image_cover [''N64'', ''Front'', ''Box'', ''Mario_ 64-01.JPG'']
                           [''N64'', ''images'', ''covers'', ''mario.jpg''] example_world)))
        [''N64'', ''images'', ''covers'', ''mario.jpg''] =
      Some (File (ImageFile \<lparr>width = 512, height = 307, mode = ''RGB'', orientation = None,
                              pixels = Resampled (0, 0, 1000, 600) (512, 307)
                                         (Converted ''RGB'' (Original 4))\<rparr>
                    jpeg_encoding))"
    unfolding e using Image_save_resolve[OF sv] unfolding ou by simp
  show ?thesis
    using rotated_open a b example_cover_open example_cover_fst c by simp
qed

section \<open>The image fields of an entry\<close>

lemma findall_cover_step_image:
  "findall (fst (cover_step d s n r (ge, w))) ''image'' =
     findall ge ''image'' @
     (if \<exists>src. find_image (tree w) d ''Front'' s n = Some src
              \<and> fst (process_image_cover src (d @ [''images'', ''covers'', r @ ''.jpg'']) w)
      then [Element ''image'' (Some (''./images/covers/'' @ r @ ''.jpg'')) []] else [])"
  by (auto simp: cover_step_def findall_SubElement split: option.splits prod.splits)

lemma snd_cover_step:
  "snd (cover_step d s n r (ge, w)) =
     (case find_image (tree w) d ''Front'' s n of
        None \<Rightarrow> w
      | Some src \<Rightarrow> snd (process_image_cover src (d @ [''images'', ''covers'', r @ ''.jpg'']) w))"
  by (auto simp: cover_step_def split: option.splits prod.splits)

lemma findall_fanart_step_fanart:
  "findall (fst (fanart_step d s n r (ge, w))) ''fanart'' =
     findall ge ''fanart'' @
     (if \<exists>src. find_image (tree w) d ''Screenshot'' s n = Some src
              \<and> fst (process_image_fanart src (d @ [''images'', ''fanart'', r @ ''.jpg'']) w)
      then [Element ''fanart'' (Some (''./images/fanart/'' @ r @ ''.jpg'')) []] else [])"
  by (auto simp: fanart_step_def findall_SubElement split: option.splits prod.splits)

lemma snd_fanart_step:
  "snd (fanart_step d s n r (ge, w)) =
     (case find_image (tree w) d ''Screenshot'' s n of
        None \<Rightarrow> w
      | Some src \<Rightarrow> snd (process_image_fanart src (d @ [''images'', ''fanart'', r @ ''.jpg'']) w))"
  by (auto simp: fanart_step_def split: option.splits prod.splits)

lemma findall_marquee_step_marquee:
  "findall (fst (marquee_step d s n r (ge, w))) ''marquee'' =
     findall ge ''marquee'' @
     (if \<exists>src. find_image (tree w) d ''Clear Logo'' s n = Some src
              \<and> fst (process_image_marquee src (d @ [''images'', ''marquees'', r @ ''.png'']) w)
      then [Element ''marquee'' (Some (''./images/marquees/'' @ r @ ''.png'')) []] else [])"
  by (auto simp: marquee_step_def findall_SubElement split: option.splits prod.splits)

lemma findall_metadata_art:
  assumes "t \<in> {''image'', ''fanart'', ''marquee''}"
  shows "findall (snd (add_metadata g name (SubElement (Element ''game'' None []) ''path'' v))) t = []"
proof -
  have 1: "t \<noteq> ''desc''" "t \<notin> {''developer'', ''publisher'', ''genre'', ''maxplayers''}"
    "t \<noteq> ''releasedate''" "t \<noteq> ''path''" "t \<noteq> ''name''"
    using assms by auto
  show ?thesis
    unfolding findall_metadata filter_append
    using 1(4,5)
    by (simp add: filter_desc_part[OF 1(1)] filter_tags_part[OF 1(2)] filter_release_part[OF 1(3)]
        del: map_eq_conv concat.simps list.map)
qed

lemma cover_failure_logged:
  "\<not> fst (process_image_cover src dest v) \<Longrightarrow>
   \<exists>e. printed (snd (process_image_cover src dest v)) = printed v @ [ErrorCover src e]"
  by (auto simp: process_image_cover_def Let_def print_event_def split: sum.splits)

lemma fanart_failure_logged:
  "\<not> fst (process_image_fanart src dest v) \<Longrightarrow>
   \<exists>e. printed (snd (process_image_fanart src dest v)) = printed v @ [ErrorFanart src e]"
  by (auto simp: process_image_fanart_def Let_def print_event_def split: sum.splits)

lemma marquee_failure_logged:
  "\<not> fst (process_image_marquee src dest v) \<Longrightarrow>
   \<exists>e. printed (snd (process_image_marquee src dest v)) = printed v @ [ErrorMarquee src e]"
  by (auto simp: process_image_marquee_def Let_def print_event_def split: sum.splits)

lemma snd_marquee_step:
  "snd (marquee_step d s n r (ge, w)) =
     (case find_image (tree w) d ''Clear Logo'' s n of
        None \<Rightarrow> w
      | Some src \<Rightarrow> snd (process_image_marquee src (d @ [''images'', ''marquees'', r @ ''.png'']) w))"
  by (auto simp: marquee_step_def split: option.splits prod.splits)








lemma scan_dirs_continues:
  assumes "d \<notin> set excludes" "\<not> startswith d ''.''" "get_launchbox_xml v [d] \<noteq> None"
    "process_directory d v = Inr v'"
  shows "scan_dirs (d # dirs) found v = scan_dirs dirs (found + 1) v'"
  using assms by simp

text \<open>The entry and the state the loop body leaves for a matched game.\<close>

lemma process_game_chain:
  fixes w :: world and d :: path and f :: string
  assumes "rom_map f = Some game_node"
  defines "name \<equiv> fst (splitext f)"
  defines "sanitized \<equiv> sanitize_lb_title (case find_child game_node ''Title'' of
                                              None \<Rightarrow> Some name
                                            | Some title \<Rightarrow> etext title)"
  defines "w0 \<equiv> print_event (GameLine name) w"
  defines "w1 \<equiv> (case find_image (tree w0) d ''Front'' sanitized name of
                     None \<Rightarrow> w0
                   | Some src \<Rightarrow>
                       snd (process_image_cover src (d @ [''images'', ''covers'', name @ ''.jpg'']) w0))"
  defines "w2 \<equiv> (case find_image (tree w1) d ''Screenshot'' sanitized name of
                     None \<Rightarrow> w1
                   | Some src \<Rightarrow>
                       snd (process_image_fanart src (d @ [''images'', ''fanart'', name @ ''.jpg'']) w1))"
  defines "w3 \<equiv> (case find_image (tree w2) d ''Clear Logo'' sanitized name of
                     None \<Rightarrow> w2
                   | Some src \<Rightarrow>
                       snd (process_image_marquee src (d @ [''images'', ''marquees'', name @ ''.png'']) w2))"
  defines "entry \<equiv> fst (process_game d rom_map f w)"
  shows "findall entry ''image'' =
              (if \<exists>src. find_image (tree w0) d ''Front'' sanitized name = Some src
                       \<and> fst (process_image_cover src
                                 (d @ [''images'', ''covers'', name @ ''.jpg'']) w0)
               then [Element ''image'' (Some (''./images/covers/'' @ name @ ''.jpg'')) []]
               else [])"
    and "findall entry ''fanart'' =
              (if \<exists>src. find_image (tree w1) d ''Screenshot'' sanitized name = Some src
                       \<and> fst (process_image_fanart src
                                 (d @ [''images'', ''fanart'', name @ ''.jpg'']) w1)
               then [Element ''fanart'' (Some (''./images/fanart/'' @ name @ ''.jpg'')) []]
               else [])"
    and "findall entry ''marquee'' =
              (if \<exists>src. find_image (tree w2) d ''Clear Logo'' sanitized name = Some src
                       \<and> fst (process_image_marquee src
                                 (d @ [''images'', ''marquees'', name @ ''.png'']) w2)
               then [Element ''marquee'' (Some (''./images/marquees/'' @ name @ ''.png'')) []]
               else [])"
    and "snd (process_game d rom_map f w) = w3"
proof -
  define ge where "ge = snd (add_metadata game_node name
               (SubElement (Element ''game'' None []) ''path'' (Some (''./'' @ f))))"
  let ?st1 = "cover_step d sanitized name name (ge, w0)"
  let ?st2 = "fanart_step d sanitized name name ?st1"
  let ?st3 = "marquee_step d sanitized name name ?st2"
  have pg: "process_game d rom_map f w = ?st3"
    unfolding process_game_matched[of rom_map f game_node d w, OF assms(1)] fst_add_metadata
      name_def sanitized_def w0_def ge_def ..
  obtain ge1 where st1: "cover_step d sanitized name name (ge, w0) = (ge1, w1)"
    using snd_cover_step[of d sanitized name name ge w0] unfolding w1_def
    by (cases "cover_step d sanitized name name (ge, w0)") simp
  obtain ge2 where st2: "fanart_step d sanitized name name (ge1, w1) = (ge2, w2)"
    using snd_fanart_step[of d sanitized name name ge1 w1] unfolding w2_def
    by (cases "fanart_step d sanitized name name (ge1, w1)") simp
  obtain ge3 where st3: "marquee_step d sanitized name name (ge2, w2) = (ge3, w3)"
    using snd_marquee_step[of d sanitized name name ge2 w2] unfolding w3_def
    by (cases "marquee_step d sanitized name name (ge2, w2)") simp
  have pg3: "process_game d rom_map f w = (ge3, w3)"
    unfolding pg st1 st2 st3 ..
  have m0: "findall ge ''image'' = []" "findall ge ''fanart'' = []" "findall ge ''marquee'' = []"
    unfolding ge_def by (simp_all add: findall_metadata_art)
  have e1: "ge1 = fst (cover_step d sanitized name name (ge, w0))"
    unfolding st1 by simp
  have e2: "ge2 = fst (fanart_step d sanitized name name (ge1, w1))"
    unfolding st2 by simp
  have e3: "ge3 = fst (marquee_step d sanitized name name (ge2, w2))"
    unfolding st3 by simp
  have i1: "findall ge1 ''image'' =
              (if \<exists>src. find_image (tree w0) d ''Front'' sanitized name = Some src
                       \<and> fst (process_image_cover src (d @ [''images'', ''covers'', name @ ''.jpg'']) w0)
               then [Element ''image'' (Some (''./images/covers/'' @ name @ ''.jpg'')) []]
               else [])"
    unfolding e1 findall_cover_step_image m0 append_Nil ..
  have i2: "findall ge2 ''image'' = findall ge1 ''image''"
    unfolding e2 by (simp add: findall_fanart_step)
  have i3: "findall ge3 ''image'' = findall ge2 ''image''"
    unfolding e3 by (simp add: findall_marquee_step)
  have f1: "findall ge1 ''fanart'' = []"
    unfolding e1 using m0(2) by (simp add: findall_cover_step)
  have f2: "findall ge2 ''fanart'' =
              (if \<exists>src. find_image (tree w1) d ''Screenshot'' sanitized name = Some src
                       \<and> fst (process_image_fanart src (d @ [''images'', ''fanart'', name @ ''.jpg'']) w1)
               then [Element ''fanart'' (Some (''./images/fanart/'' @ name @ ''.jpg'')) []]
               else [])"
    unfolding e2 findall_fanart_step_fanart f1 append_Nil ..
  have f3: "findall ge3 ''fanart'' = findall ge2 ''fanart''"
    unfolding e3 by (simp add: findall_marquee_step)
  have q1: "findall ge1 ''marquee'' = []"
    unfolding e1 using m0(3) by (simp add: findall_cover_step)
  have q2: "findall ge2 ''marquee'' = []"
    unfolding e2 using q1 by (simp add: findall_fanart_step)
  have q3: "findall ge3 ''marquee'' =
              (if \<exists>src. find_image (tree w2) d ''Clear Logo'' sanitized name = Some src
                       \<and> fst (process_image_marquee src (d @ [''images'', ''marquees'', name @ ''.png'']) w2)
               then [Element ''marquee'' (Some (''./images/marquees/'' @ name @ ''.png'')) []]
               else [])"
    unfolding e3 findall_marquee_step_marquee q2 append_Nil ..
  have en: "entry = ge3"
    unfolding entry_def pg3 by simp
  show "findall entry ''image'' =
              (if \<exists>src. find_image (tree w0) d ''Front'' sanitized name = Some src
                       \<and> fst (process_image_cover src
                                 (d @ [''images'', ''covers'', name @ ''.jpg'']) w0)
               then [Element ''image'' (Some (''./images/covers/'' @ name @ ''.jpg'')) []]
               else [])"
    unfolding en i3 i2 i1 ..
  show "findall entry ''fanart'' =
              (if \<exists>src. find_image (tree w1) d ''Screenshot'' sanitized name = Some src
                       \<and> fst (process_image_fanart src
                                 (d @ [''images'', ''fanart'', name @ ''.jpg'']) w1)
               then [Element ''fanart'' (Some (''./images/fanart/'' @ name @ ''.jpg'')) []]
               else [])"
    unfolding en f3 f2 ..
  show "findall entry ''marquee'' =
              (if \<exists>src. find_image (tree w2) d ''Clear Logo'' sanitized name = Some src
                       \<and> fst (process_image_marquee src
                                 (d @ [''images'', ''marquees'', name @ ''.png'']) w2)
               then [Element ''marquee'' (Some (''./images/marquees/'' @ name @ ''.png'')) []]
               else [])"
    unfolding en q3 ..
  show "snd (process_game d rom_map f w) = w3"
    unfolding pg3 by simp
qed










section \<open>The name of an entry and the title of the lookup\<close>

text \<open>
  C9. For a ROM file matched to a record, the \<open>name\<close> field is the text of the record's
  \<open>Title\<close> element, and the ROM base name when the record has no \<open>Title\<close> element. That
  same title after sanitizing, which replaces each of the eleven characters of
  \<open>forbidden_chars\<close> (less-than, greater-than, colon, double quote, slash, backslash, bar,
  question mark, star, single quote, backtick) by an underscore, is the title handed to the
  locator: each of the fields \<open>image\<close>, \<open>fanart\<close> and \<open>marquee\<close> is decided by \<open>find_image\<close>
  called with the sanitized title and the ROM base name.
\<close>

theorem matched_name_and_lookup_title:
  assumes "rom_map f = Some game_node"
  shows "let name = fst (splitext f);
             title_text = (case find_child game_node ''Title'' of
                             None \<Rightarrow> Some name
                           | Some title \<Rightarrow> etext title);
             sanitized = sanitize_lb_title title_text;
             w0 = print_event (GameLine name) w;
             w1 = (case find_image (tree w0) d ''Front'' sanitized name of
                     None \<Rightarrow> w0
                   | Some src \<Rightarrow>
                       snd (process_image_cover src (d @ [''images'', ''covers'', name @ ''.jpg'']) w0));
             w2 = (case find_image (tree w1) d ''Screenshot'' sanitized name of
                     None \<Rightarrow> w1
                   | Some src \<Rightarrow>
                       snd (process_image_fanart src (d @ [''images'', ''fanart'', name @ ''.jpg'']) w1));
             entry = fst (process_game d rom_map f w)
         in findall entry ''name'' = [Element ''name'' title_text []]
            \<and> sanitized =
                (case title_text of
                   None \<Rightarrow> []
                 | Some s \<Rightarrow>
                     map (\<lambda>c. if c \<in> {CHR ''<'', CHR ''>'', CHR '':'', CHR 0x22, CHR ''/'',
                                      CHR 0x5C, CHR ''|'', CHR ''?'', CHR ''*'', CHR 0x27, CHR 0x60}
                              then CHR ''_'' else c) s)
            \<and> findall entry ''image'' =
              (if \<exists>src. find_image (tree w0) d ''Front'' sanitized name = Some src
                       \<and> fst (process_image_cover src
                                 (d @ [''images'', ''covers'', name @ ''.jpg'']) w0)
               then [Element ''image'' (Some (''./images/covers/'' @ name @ ''.jpg'')) []]
               else [])
            \<and> findall entry ''fanart'' =
              (if \<exists>src. find_image (tree w1) d ''Screenshot'' sanitized name = Some src
                       \<and> fst (process_image_fanart src
                                 (d @ [''images'', ''fanart'', name @ ''.jpg'']) w1)
               then [Element ''fanart'' (Some (''./images/fanart/'' @ name @ ''.jpg'')) []]
               else [])
            \<and> findall entry ''marquee'' =
              (if \<exists>src. find_image (tree w2) d ''Clear Logo'' sanitized name = Some src
                       \<and> fst (process_image_marquee src
                                 (d @ [''images'', ''marquees'', name @ ''.png'']) w2)
               then [Element ''marquee'' (Some (''./images/marquees/'' @ name @ ''.png'')) []]
               else [])"
proof -
  let ?name = "fst (splitext f)"
  let ?tt = "case find_child game_node ''Title'' of None \<Rightarrow> Some ?name | Some title \<Rightarrow> etext title"
  note c = process_game_chain[where rom_map = rom_map and f = f and game_node = game_node
             and w = w and d = d, OF assms]
  have "findall (fst (process_game d rom_map f w)) ''name'' =
        findall (snd (add_metadata game_node ?name
            (SubElement (Element ''game'' None []) ''path'' (Some (''./'' @ f))))) ''name''"
    by (rule findall_process_game_matched) (use assms in simp_all)
  also have "\<dots> = [Element ''name'' ?tt []]"
    unfolding findall_metadata filter_append
    by (simp add: filter_desc_part filter_tags_part filter_release_part
          del: map_eq_conv concat.simps list.map)
  finally have a: "findall (fst (process_game d rom_map f w)) ''name'' = [Element ''name'' ?tt []]" .
  have b: "sanitize_lb_title ?tt =
             (case ?tt of
                None \<Rightarrow> []
              | Some s \<Rightarrow>
                  map (\<lambda>c. if c \<in> {CHR ''<'', CHR ''>'', CHR '':'', CHR 0x22, CHR ''/'',
                                   CHR 0x5C, CHR ''|'', CHR ''?'', CHR ''*'', CHR 0x27, CHR 0x60}
                           then CHR ''_'' else c) s)"
    by (cases ?tt) (simp_all add: sanitize_lb_title_def forbidden_chars_def)
  show ?thesis
    unfolding Let_def
    apply (intro conjI)
        apply (rule a)
       apply (rule b)
      apply (rule c(1))
     apply (rule c(2))
    apply (rule c(3))
    done
qed

text \<open>
  C9 at the example folder: the record of \<open>mario.z64\<close> is titled \<open>Mario: 64\<close>. The entry is
  named so; the cover \<open>Mario_ 64-01.JPG\<close> is found under the sanitized title, where the
  title as it stands finds nothing, and the entry has its \<open>image\<close> field.
\<close>

theorem matched_name_and_lookup_title_witness:
  "[''mario.z64'' \<mapsto> example_game_reissue] ''mario.z64'' = Some example_game_reissue
   \<and> findall (fst (process_game [''N64''] [''mario.z64'' \<mapsto> example_game_reissue] ''mario.z64''
                     example_world)) ''name'' = [Element ''name'' (Some ''Mario: 64'') []]
   \<and> sanitize_lb_title (Some ''Mario: 64'') = ''Mario_ 64''
   \<and> find_image example_tree [''N64''] ''Front'' ''Mario_ 64'' ''mario'' =
       Some [''N64'', ''Front'', ''Box'', ''Mario_ 64-01.JPG'']
   \<and> find_image example_tree [''N64''] ''Front'' ''Mario: 64'' ''mario'' = None
   \<and> findall (fst (process_game [''N64''] [''mario.z64'' \<mapsto> example_game_reissue] ''mario.z64''
                     example_world)) ''image'' =
       [Element ''image'' (Some ''./images/covers/mario.jpg'') []]"
proof -
  have h: "[''mario.z64'' \<mapsto> example_game_reissue] ''mario.z64'' = Some example_game_reissue"
    by simp
  note T = matched_name_and_lookup_title[where rom_map = "[''mario.z64'' \<mapsto> example_game_reissue]"
             and f = "''mario.z64''" and game_node = example_game_reissue
             and d = "[''N64'']" and w = example_world, OF h, unfolded Let_def]
  have n: "fst (splitext ''mario.z64'') = ''mario''"
    by code_simp
  have t: "find_child example_game_reissue ''Title'' = Some (Element ''Title'' (Some ''Mario: 64'') [])"
    by (simp add: find_child_def example_game_reissue_def)
  have s: "sanitize_lb_title (Some ''Mario: 64'') = ''Mario_ 64''"
    by code_simp
  have tr: "tree (print_event (GameLine ''mario'') example_world) = example_tree"
    by (simp add: print_event_def example_world_def)
  have fi: "find_image example_tree [''N64''] ''Front'' ''Mario_ 64'' ''mario'' =
              Some [''N64'', ''Front'', ''Box'', ''Mario_ 64-01.JPG'']"
    by code_simp
  have fn: "find_image example_tree [''N64''] ''Front'' ''Mario: 64'' ''mario'' = None"
    by code_simp
  have pc: "fst (process_image_cover [''N64'', ''Front'', ''Box'', ''Mario_ 64-01.JPG'']
                  [''N64'', ''images'', ''covers'', ''mario.jpg'']
                  (print_event (GameLine ''mario'') example_world))"
    by (rule example_cover_after_print)
  have nm: "findall (fst (process_game [''N64''] [''mario.z64'' \<mapsto> example_game_reissue]
                            ''mario.z64'' example_world)) ''name'' =
              [Element ''name'' (Some ''Mario: 64'') []]"
    using T[THEN conjunct1]
    unfolding n t option.case element.sel .
  have img: "findall (fst (process_game [''N64''] [''mario.z64'' \<mapsto> example_game_reissue]
                             ''mario.z64'' example_world)) ''image'' =
               [Element ''image'' (Some ''./images/covers/mario.jpg'') []]"
    using T[THEN conjunct2, THEN conjunct2, THEN conjunct1]
    unfolding n t option.case element.sel s tr fi
    using pc by simp
  show ?thesis
    using h nm s fi fn img by (intro conjI)
qed

end
